theory Spec2Isabelle
  imports Complex_Main "HOL-Library.Word" "HOL-Library.Multiset"
begin

section \<open>Geocoding matrices of pygmtsar (SBAS\_geocode.py)\<close>

text \<open>
  The theory embeds the class \<open>SBAS_geocode\<close>: the forward resampler \<open>intf_ra2ll\<close>
  with its inner \<open>ra2ll\<close>, the forward matrix builder \<open>intf_ra2ll_matrix\<close>, the
  inverse matrix builder \<open>intf_ll2ra_matrix\<close> with its inner
  \<open>calc_intf_ll2ra_matrix\<close>, and the inverse resampler \<open>intf_ll2ra\<close> with its inner
  \<open>ll2ra\<close>.

  Conventions of the embedding:
  \<^item> a float of the source is a \<open>real\<close>; a raster value is a \<open>sample\<close>, which is a
    number or not-a-number;
  \<^item> a two-dimensional raster or matrix is kept flat in row-major order (what
    \<open>reshape(-1)\<close> returns), its shape being given by the two coordinate lists; the
    translation dataset, which is read block by block, is kept as a list of rows;
  \<^item> every exception of the source is a value of \<open>error\<close>, returned as \<open>Inl\<close>;
  \<^item> the libraries the source calls (numpy indexing and \<open>where\<close>, xarray
    \<open>reindex_like\<close>, scipy's \<open>cKDTree\<close>, dask's \<open>blocks\<close>) are modelled by their
    documented behaviour.
\<close>

subsection \<open>Errors and values\<close>

datatype error = IndexError | ValueError | AssertionError | NameError

datatype sample = NaN | Val real

text \<open>Running a fallible function over a list stops at the first exception.\<close>

fun collect :: "(error + 'a) list \<Rightarrow> error + 'a list" where
  "collect [] = Inr []"
| "collect (r # rs) =
     (case r of
        Inl e \<Rightarrow> Inl e
      | Inr v \<Rightarrow> (case collect rs of Inl e \<Rightarrow> Inl e | Inr vs \<Rightarrow> Inr (v # vs)))"

subsection \<open>numpy indexing\<close>

text \<open>
  \<open>arr[i]\<close> for a signed index: an index in \<open>[0, n)\<close> reads that element, an index in
  \<open>[-n, 0)\<close> counts from the end, anything else raises IndexError.
\<close>

definition np_index :: "nat \<Rightarrow> int \<Rightarrow> error + nat" where
  "np_index n i =
     (if 0 \<le> i \<and> i < int n then Inr (nat i)
      else if - int n \<le> i \<and> i < 0 then Inr (nat (i + int n))
      else Inl IndexError)"

definition np_take :: "'a list \<Rightarrow> int \<Rightarrow> error + 'a" where
  "np_take arr i =
     (case np_index (length arr) i of Inl e \<Rightarrow> Inl e | Inr k \<Rightarrow> Inr (arr ! k))"

text \<open>\<open>arr[idx]\<close> for an integer array \<open>idx\<close>: every index is read, one bad index raises.\<close>

definition np_gather :: "'a list \<Rightarrow> int list \<Rightarrow> error + 'a list" where
  "np_gather arr idx = collect (map (np_take arr) idx)"

text \<open>\<open>arr.min()\<close> and \<open>arr.max()\<close>: a reduction of an empty array raises ValueError.\<close>

definition np_min :: "'a::linorder list \<Rightarrow> error + 'a" where
  "np_min arr = (case arr of [] \<Rightarrow> Inl ValueError | v # vs \<Rightarrow> Inr (fold min vs v))"

definition np_max :: "'a::linorder list \<Rightarrow> error + 'a" where
  "np_max arr = (case arr of [] \<Rightarrow> Inl ValueError | v # vs \<Rightarrow> Inr (fold max vs v))"

subsection \<open>Labelled arrays\<close>

text \<open>
  An xarray \<open>DataArray\<close> of two or three dimensions: the dimension names (outermost
  first), the coordinate labels of the last two axes, and one flat row-major layer per
  index of the leading axis (exactly one layer when there are two dimensions).
\<close>

record 'v dataarray =
  dims :: "string list"
  coord0 :: "real list"
  coord1 :: "real list"
  layers :: "'v list list"

definition axis0 :: "'v dataarray \<Rightarrow> string" where
  "axis0 a = last (butlast (dims a))"

definition axis1 :: "'v dataarray \<Rightarrow> string" where
  "axis1 a = last (dims a)"

text \<open>The coordinate of \<open>other\<close> along the dimension called \<open>name\<close>, when it has one.\<close>

definition coord_of :: "'w dataarray \<Rightarrow> string \<Rightarrow> real list option" where
  "coord_of other name =
     (if name = axis0 other then Some (coord0 other)
      else if name = axis1 other then Some (coord1 other)
      else None)"

text \<open>Position of a label on an axis (\<open>Index.get_indexer\<close>): the place of the equal label.\<close>

fun position :: "real list \<Rightarrow> real \<Rightarrow> nat option" where
  "position [] v = None"
| "position (c # cs) v =
     (if c = v then Some 0 else map_option Suc (position cs v))"

text \<open>
  \<open>grid.reindex_like(other)\<close> on one layer. Along an axis whose name \<open>other\<close> also
  has, the layer takes the labels of \<open>other\<close>: equal labels leave the axis as it is,
  otherwise every new label is looked up among the old ones, which xarray refuses when
  the old labels have duplicates. An axis that \<open>other\<close> does not have stays as it is.
  The result of \<open>reindex_axis\<close> is the new labels and, for each, the old position it
  reads or none.
\<close>

definition reindex_axis ::
  "real list \<Rightarrow> real list option \<Rightarrow> error + (real list \<times> nat option list)" where
  "reindex_axis c target =
     (case target of
        None \<Rightarrow> Inr (c, map Some [0..<length c])
      | Some t \<Rightarrow>
          if t = c then Inr (c, map Some [0..<length c])
          else if \<not> distinct c then Inl ValueError
          else Inr (t, map (position c) t))"

text \<open>A cell whose labels the layer has keeps its value, any other is not-a-number.\<close>

definition reindex_like ::
  "string \<Rightarrow> string \<Rightarrow> real list \<Rightarrow> real list \<Rightarrow> sample list \<Rightarrow> 'w dataarray
   \<Rightarrow> error + (real list \<times> real list \<times> sample list)" where
  "reindex_like n0 n1 c0 c1 vals other =
     (case reindex_axis c0 (coord_of other n0) of
        Inl e \<Rightarrow> Inl e
      | Inr (t0, idx0) \<Rightarrow>
          (case reindex_axis c1 (coord_of other n1) of
             Inl e \<Rightarrow> Inl e
           | Inr (t1, idx1) \<Rightarrow>
               Inr (t0, t1,
                 concat (map (\<lambda>i. map (\<lambda>j.
                   (case (i, j) of
                      (Some i', Some j') \<Rightarrow> vals ! (i' * length c1 + j')
                    | _ \<Rightarrow> NaN)) idx1) idx0))))"

subsection \<open>Forward resampler: \<open>intf_ra2ll\<close>\<close>

text \<open>
  The inner function \<open>ra2ll(grid)\<close> (source lines 39 to 47). \<open>matrix_ra2ll\<close> is the flat
  forward matrix, \<open>matrix_ll2ra\<close> the inverse matrix, of which only the coordinates are
  used. The mask of the final \<open>np.where\<close> is \<open>matrix_ra2ll >= 0\<close>, computed on the
  matrix as stored, while the gather reads through \<open>matrix_ra2ll_valid\<close>.
\<close>

definition ra2ll ::
  "int list \<Rightarrow> 'w dataarray \<Rightarrow> string \<Rightarrow> string \<Rightarrow> real list \<Rightarrow> real list \<Rightarrow> sample list
   \<Rightarrow> error + sample list" where
  "ra2ll matrix_ra2ll matrix_ll2ra n0 n1 c0 c1 vals =
     (case reindex_like n0 n1 c0 c1 vals matrix_ll2ra of
        Inl e \<Rightarrow> Inl e
      | Inr (t0, t1, grid) \<Rightarrow>
          (let grid_size = int (length t0 * length t1);
               matrix_ra2ll_valid = map (\<lambda>m. if m < grid_size then m else - 1) matrix_ra2ll
           in case np_gather grid matrix_ra2ll_valid of
                Inl e \<Rightarrow> Inl e
              | Inr gathered \<Rightarrow>
                  Inr (map (\<lambda>(m, v). if m \<ge> 0 then v else NaN) (zip matrix_ra2ll gathered))))"

text \<open>
  \<open>intf_ra2ll\<close> (source lines 8 to 68), from the helper check on; the two matrices are
  the ones the function opens from the subswath's files. The result is the returned
  array together with the lines printed. The helper check is the source's
  \<open>not 'y' in grids.dims and 'x' in grids.dims\<close>, in which \<open>not\<close> binds tighter than
  \<open>and\<close>. \<open>xr.concat\<close> of no layer raises ValueError. Passenger coordinates of a
  stack are not part of the model.
\<close>

definition intf_ra2ll ::
  "int dataarray \<Rightarrow> 'w dataarray \<Rightarrow> sample dataarray
   \<Rightarrow> error + (sample dataarray \<times> string list)" where
  "intf_ra2ll matrix_ra2ll matrix_ll2ra grids =
     (if (\<not> ''y'' \<in> set (dims grids)) \<and> ''x'' \<in> set (dims grids)
      then Inr (grids, [''NOTE: the grid is not in radar coordinates, miss geocoding''])
      else
        (let m = concat (layers matrix_ra2ll);
             f = ra2ll m matrix_ll2ra (axis0 grids) (axis1 grids) (coord0 grids) (coord1 grids)
         in if length (dims grids) = 2
            then (case collect (map f (take 1 (layers grids))) of
                    Inl e \<Rightarrow> Inl e
                  | Inr vs \<Rightarrow>
                      Inr (\<lparr>dims = dims matrix_ra2ll, coord0 = coord0 matrix_ra2ll,
                            coord1 = coord1 matrix_ra2ll, layers = vs\<rparr>, []))
            else (case collect (map f (layers grids)) of
                    Inl e \<Rightarrow> Inl e
                  | Inr vs \<Rightarrow>
                      if vs = [] then Inl ValueError
                      else Inr (\<lparr>dims = hd (dims grids) # dims matrix_ra2ll,
                                 coord0 = coord0 matrix_ra2ll,
                                 coord1 = coord1 matrix_ra2ll, layers = vs\<rparr>, []))))"

subsection \<open>Nearest-neighbour search\<close>

text \<open>
  scipy's \<open>cKDTree(data).query(x, k=1, distance_upper_bound=u)\<close>, by its documented
  contract: for each query point the Euclidean distance to the nearest data point and
  that point's position in \<open>data\<close>; only a neighbour strictly closer than \<open>u\<close>
  counts, and a missing neighbour is reported as an infinite distance (\<open>None\<close> here)
  with the index \<open>len(data)\<close>. Among equally near data points scipy's choice is
  implementation-defined; the model takes the first.
\<close>

type_synonym point = "real \<times> real"

definition dist_yx :: "point \<Rightarrow> point \<Rightarrow> real" where
  "dist_yx p q = sqrt ((fst p - fst q)\<^sup>2 + (snd p - snd q)\<^sup>2)"

fun nearest :: "point list \<Rightarrow> point \<Rightarrow> (real \<times> nat) option" where
  "nearest [] q = None"
| "nearest (p # ps) q =
     (case nearest ps q of
        None \<Rightarrow> Some (dist_yx p q, 0)
      | Some (d, i) \<Rightarrow> if dist_yx p q \<le> d then Some (dist_yx p q, 0) else Some (d, Suc i))"

definition query :: "point list \<Rightarrow> point \<Rightarrow> real option \<Rightarrow> real option \<times> nat" where
  "query data q distance_upper_bound =
     (case nearest data q of
        None \<Rightarrow> (None, length data)
      | Some (d, i) \<Rightarrow>
          (case distance_upper_bound of
             None \<Rightarrow> (Some d, i)
           | Some u \<Rightarrow> if d < u then (Some d, i) else (None, length data)))"

subsection \<open>Forward matrix builder: \<open>intf_ra2ll_matrix\<close>\<close>

text \<open>A row of \<open>trans.dat\<close>: range, azimuth, elevation, longitude, latitude (columns 0 to 4).\<close>

record trans_row =
  col_r :: real
  col_a :: real
  col_topo :: real
  col_lon :: real
  col_lat :: real

text \<open>
  The cell centers of the interferogram grid, \<open>xr.broadcast(y, x)\<close> flattened: row-major,
  the cell of the \<open>i\<close>-th \<open>y\<close> and \<open>j\<close>-th \<open>x\<close> at index \<open>i * len(x) + j\<close>.
\<close>

definition intf_yxs :: "real list \<Rightarrow> real list \<Rightarrow> point list" where
  "intf_yxs ys xs = concat (map (\<lambda>y. map (\<lambda>x. (y, x)) xs) ys)"

definition trans_yxs :: "trans_row list \<Rightarrow> point list" where
  "trans_yxs trans_tab = map (\<lambda>r. (col_a r, col_r r)) trans_tab"

text \<open>
  Half the diagonal of one cell plus \<open>1e-2\<close> (source lines 103 to 105); \<open>diff(...)[0]\<close>
  raises IndexError on an axis of fewer than two labels.
\<close>

definition distance_limit :: "real list \<Rightarrow> real list \<Rightarrow> error + real" where
  "distance_limit ys xs =
     (if length ys < 2 \<or> length xs < 2 then Inl IndexError
      else (let dy = ys ! 1 - ys ! 0; dx = xs ! 1 - xs ! 0
            in Inr (sqrt ((dx / 2)\<^sup>2 + (dy / 2)\<^sup>2) + 1 / 100)))"

text \<open>Source lines 101 to 109: the radar cell of every translation-table point, or -1.\<close>

definition intf2trans :: "real list \<Rightarrow> real list \<Rightarrow> real \<Rightarrow> trans_row list \<Rightarrow> int list" where
  "intf2trans ys xs limit trans_tab =
     map (\<lambda>q. case query (intf_yxs ys xs) q (Some limit) of
                 (d, ind) \<Rightarrow> if d \<noteq> None then int ind else - 1)
         (trans_yxs trans_tab)"

text \<open>
  Source lines 87 to 112: the values of the forward matrix, before the post-check.
  \<open>trans[:,3].min()\<close> raises ValueError on an empty table; \<open>intf2trans[trans_ra2ll]\<close>
  reads every entry of \<open>trans_ra2ll\<close>, the negative ones too, before \<open>np.where\<close>
  discards what was read through them.
\<close>

definition intf_ra2ll_values ::
  "real list \<Rightarrow> real list \<Rightarrow> trans_row list \<Rightarrow> int list \<Rightarrow> error + int list" where
  "intf_ra2ll_values ys xs trans_tab trans_ra2ll =
     (if trans_tab = [] then Inl ValueError
      else case distance_limit ys xs of
             Inl e \<Rightarrow> Inl e
           | Inr limit \<Rightarrow>
               (case np_gather (intf2trans ys xs limit trans_tab) trans_ra2ll of
                  Inl e \<Rightarrow> Inl e
                | Inr picked \<Rightarrow>
                    Inr (map (\<lambda>(t, v). if t \<ge> 0 then v else - 1) (zip trans_ra2ll picked))))"

text \<open>A NetCDF file: the array and its integer attributes.\<close>

type_synonym netcdf = "int dataarray \<times> (string \<times> int) list"

text \<open>
  Source lines 113 to 121, on the values of a forward matrix: the assertion that the
  largest value is below the cell count of the reference grid, the attribute
  \<open>node_offset\<close>, and the file written in place of the old one. \<open>max()\<close> of an empty
  matrix raises ValueError.
\<close>

definition intf_ra2ll_post_check ::
  "(string \<rightharpoonup> netcdf) \<Rightarrow> string \<Rightarrow> nat \<Rightarrow> int dataarray \<Rightarrow> int list
   \<Rightarrow> error + (string \<rightharpoonup> netcdf)" where
  "intf_ra2ll_post_check files intf_ra2ll_file intf_grid_size trans_ra2ll mvals =
     (case np_max mvals of
        Inl e \<Rightarrow> Inl e
      | Inr mx \<Rightarrow>
          if \<not> int intf_grid_size > mx then Inl AssertionError
          else Inr (files(intf_ra2ll_file \<mapsto>
                 (trans_ra2ll\<lparr>layers := [mvals]\<rparr>, [(''node_offset'', 1)]))))"

text \<open>
  \<open>intf_ra2ll_matrix\<close> (source lines 70 to 121). \<open>intf_grids\<close> has the dimensions
  \<open>pair\<close>, \<open>y\<close>, \<open>x\<close>, so \<open>intf_grids.min('pair')\<close> has \<open>len(y) * len(x)\<close> cells.
  \<open>trans_ra2ll\<close> is the array opened from the subswath's file, \<open>files\<close> the directory
  the result is written to, under the name \<open>intf_ra2ll_file\<close>.
\<close>

definition intf_ra2ll_matrix ::
  "(string \<rightharpoonup> netcdf) \<Rightarrow> string \<Rightarrow> real list \<Rightarrow> real list \<Rightarrow> trans_row list \<Rightarrow> int dataarray
   \<Rightarrow> error + (string \<rightharpoonup> netcdf)" where
  "intf_ra2ll_matrix files intf_ra2ll_file ys xs trans_tab trans_ra2ll =
     (let intf_grid_size = length ys * length xs
      in case intf_ra2ll_values ys xs trans_tab (concat (layers trans_ra2ll)) of
           Inl e \<Rightarrow> Inl e
         | Inr mvals \<Rightarrow>
             intf_ra2ll_post_check files intf_ra2ll_file intf_grid_size trans_ra2ll mvals)"

subsection \<open>Inverse matrix builder: \<open>intf_ll2ra_matrix\<close>\<close>

text \<open>
  The translation dataset \<open>trans_dat\<close>: the variables \<open>ll\<close>, \<open>azi\<close> and \<open>rng\<close> on the
  grid of \<open>lat\<close> and \<open>lon\<close>, each a list of rows, cut into dask blocks by the chunk
  sizes \<open>lat_chunks\<close> and \<open>lon_chunks\<close> along the two axes.

  The label array \<open>trans_idx\<close> that the builder derives from the dataset (source lines
  216 to 217) is a dask \<open>arange\<close> with automatic chunks, reshaped and multiplied by
  \<open>ones_like(ll)\<close>: its blocks are dask's, the common refinement of the automatic chunks
  and those of \<open>ll\<close>. They are those of \<open>ll\<close> while the table fits one automatic chunk
  (2^25 labels at dask's default chunk size) and can be finer beyond. The chunk sizes
  dask gives the label array are the fields \<open>idx_lat_chunks\<close> and \<open>idx_lon_chunks\<close>.
\<close>

record trans_dat =
  lat :: "real list"
  lon :: "real list"
  ll :: "real list list"
  azi :: "real list list"
  rng :: "real list list"
  lat_chunks :: "nat list"
  lon_chunks :: "nat list"
  idx_lat_chunks :: "nat list"
  idx_lon_chunks :: "nat list"

text \<open>
  One row of \<open>trans_blocks_extents\<close>: block row, block column, and the bounds of the
  block's azimuths and ranges (columns 0 to 5 of a float array).
\<close>

record extent =
  e_iy :: real
  e_ix :: real
  e_ymin :: real
  e_ymax :: real
  e_xmin :: real
  e_xmax :: real

text \<open>\<open>astype(int)\<close> on a float truncates towards zero.\<close>

definition astype_int :: "real \<Rightarrow> int" where
  "astype_int v = (if v \<ge> 0 then \<lfloor>v\<rfloor> else \<lceil>v\<rceil>)"

text \<open>\<open>arr.data.blocks[iy, ix]\<close>: the block of a chunked two-dimensional array.\<close>

definition chunk_start :: "nat list \<Rightarrow> nat \<Rightarrow> nat" where
  "chunk_start chunks i = sum_list (take i chunks)"

definition chunk_slice :: "nat list \<Rightarrow> nat \<Rightarrow> 'a list \<Rightarrow> 'a list" where
  "chunk_slice chunks i arr = take (chunks ! i) (drop (chunk_start chunks i) arr)"

definition blocks ::
  "nat list \<Rightarrow> nat list \<Rightarrow> 'a list list \<Rightarrow> int \<Rightarrow> int \<Rightarrow> error + 'a list list" where
  "blocks row_chunks col_chunks arr iy ix =
     (case np_index (length row_chunks) iy of
        Inl e \<Rightarrow> Inl e
      | Inr i \<Rightarrow>
          (case np_index (length col_chunks) ix of
             Inl e \<Rightarrow> Inl e
           | Inr j \<Rightarrow> Inr (map (chunk_slice col_chunks j) (chunk_slice row_chunks i arr))))"

text \<open>
  The values of \<open>trans_idx\<close> (source lines 216 to 217): the flat position of every
  cell of \<open>ll\<close>, as an unsigned 32-bit integer; a position of 2^32 or more wraps around.
\<close>

definition ll_shape :: "trans_dat \<Rightarrow> nat \<times> nat" where
  "ll_shape td = (length (ll td), (case ll td of [] \<Rightarrow> 0 | r # _ \<Rightarrow> length r))"

definition ll_size :: "trans_dat \<Rightarrow> nat" where
  "ll_size td = fst (ll_shape td) * snd (ll_shape td)"

definition trans_idx :: "trans_dat \<Rightarrow> 32 word list list" where
  "trans_idx td =
     map (\<lambda>i. map (\<lambda>j. of_nat (i * snd (ll_shape td) + j)) [0..<snd (ll_shape td)])
         [0..<fst (ll_shape td)]"

text \<open>Source lines 243 to 245: the blocks kept for a chunk with the given bounds.\<close>

definition candidate_blocks :: "extent list \<Rightarrow> real \<Rightarrow> real \<Rightarrow> real \<Rightarrow> real \<Rightarrow> extent list" where
  "candidate_blocks trans_blocks_extents ymin ymax xmin xmax =
     filter (\<lambda>e. (e_ymax e \<ge> ymin - 1 \<and> e_ymin e \<le> ymax + 1)
                \<and> (e_xmax e \<ge> xmin - 1 \<and> e_xmin e \<le> xmax + 1))
            trans_blocks_extents"

text \<open>
  Source lines 248 to 266: the azimuths, ranges and labels of the kept blocks, in the
  order of the blocks. \<open>blocks[iy, ix]\<close> is read off each array's own block grid: that
  of the dataset for \<open>azi\<close> and \<open>rng\<close>, that of the label array for \<open>trans_idx\<close>.
  \<open>np.concatenate\<close> of no array and \<open>np.stack\<close> of columns of different lengths raise
  ValueError.
\<close>

definition gather_block ::
  "trans_dat \<Rightarrow> extent \<Rightarrow> error + (real list \<times> real list \<times> 32 word list)" where
  "gather_block td e =
     (let iy = astype_int (e_iy e); ix = astype_int (e_ix e)
      in case blocks (lat_chunks td) (lon_chunks td) (azi td) iy ix of
           Inl err \<Rightarrow> Inl err
         | Inr block_azi \<Rightarrow>
             (case blocks (lat_chunks td) (lon_chunks td) (rng td) iy ix of
                Inl err \<Rightarrow> Inl err
              | Inr block_rng \<Rightarrow>
                  (case blocks (idx_lat_chunks td) (idx_lon_chunks td) (trans_idx td) iy ix of
                     Inl err \<Rightarrow> Inl err
                   | Inr block_idx \<Rightarrow>
                       Inr (concat block_azi, concat block_rng, concat block_idx))))"

definition gather_blocks ::
  "trans_dat \<Rightarrow> extent list \<Rightarrow> error + (point list \<times> 32 word list)" where
  "gather_blocks td bs =
     (case collect (map (gather_block td) bs) of
        Inl err \<Rightarrow> Inl err
      | Inr parts \<Rightarrow>
          if parts = [] then Inl ValueError
          else (let blocks_azis = concat (map fst parts);
                    blocks_rngs = concat (map (fst \<circ> snd) parts);
                    blocks_idxs = concat (map (snd \<circ> snd) parts)
                in if length blocks_azis \<noteq> length blocks_rngs then Inl ValueError
                   else Inr (zip blocks_azis blocks_rngs, blocks_idxs)))"

text \<open>
  \<open>calc_intf_ll2ra_matrix(azi, rng)\<close> (source lines 235 to 274) on one chunk of the
  radar grid, given flat; the result is flat as well, \<open>reshape(azi.shape)\<close> being the
  shape of the argument. The query has no upper bound. The line printed for the kept
  blocks is not part of the model.
\<close>

definition calc_intf_ll2ra_matrix ::
  "trans_dat \<Rightarrow> extent list \<Rightarrow> real list \<Rightarrow> real list \<Rightarrow> error + 32 word list" where
  "calc_intf_ll2ra_matrix td trans_blocks_extents azi_c rng_c =
     (if length azi_c \<noteq> length rng_c then Inl AssertionError
      else case (np_min azi_c, np_max azi_c, np_min rng_c, np_max rng_c) of
             (Inr ymin, Inr ymax, Inr xmin, Inr xmax) \<Rightarrow>
               (case gather_blocks td (candidate_blocks trans_blocks_extents ymin ymax xmin xmax) of
                  Inl err \<Rightarrow> Inl err
                | Inr (source_yxs, blocks_idxs) \<Rightarrow>
                    (let target_yxs = zip azi_c rng_c;
                         inds = map (\<lambda>q. snd (query source_yxs q None)) target_yxs
                     in np_gather blocks_idxs (map int inds)))
           | _ \<Rightarrow> Inl ValueError)"

text \<open>
  \<open>intf_ll2ra_matrix\<close> (source lines 203 to 301): the radar grid is broadcast from its
  two axes and cut into chunks; \<open>apply_ufunc\<close> runs \<open>calc_intf_ll2ra_matrix\<close> on every
  chunk. The result lists the chunks' matrices, chunk rows first.
\<close>

definition radar_chunk :: "real list \<Rightarrow> real list \<Rightarrow> real list \<times> real list" where
  "radar_chunk cys cxs =
     (concat (map (\<lambda>y. map (\<lambda>x. y) cxs) cys), concat (map (\<lambda>y. cxs) cys))"

definition radar_chunks ::
  "real list \<Rightarrow> real list \<Rightarrow> nat list \<Rightarrow> nat list \<Rightarrow> (real list \<times> real list) list" where
  "radar_chunks ys xs y_chunks x_chunks =
     concat (map (\<lambda>i. map (\<lambda>j.
       radar_chunk (chunk_slice y_chunks i ys) (chunk_slice x_chunks j xs))
       [0..<length x_chunks]) [0..<length y_chunks])"

definition intf_ll2ra_matrix ::
  "trans_dat \<Rightarrow> extent list \<Rightarrow> real list \<Rightarrow> real list \<Rightarrow> nat list \<Rightarrow> nat list
   \<Rightarrow> error + 32 word list list" where
  "intf_ll2ra_matrix td trans_blocks_extents ys xs y_chunks x_chunks =
     collect (map (\<lambda>(azi_c, rng_c). calc_intf_ll2ra_matrix td trans_blocks_extents azi_c rng_c)
                  (radar_chunks ys xs y_chunks x_chunks))"

subsection \<open>Inverse resampler: \<open>intf_ll2ra\<close>\<close>

text \<open>
  The inner function \<open>ll2ra(grid)\<close> (source lines 342 to 348): the inverse matrix holds
  unsigned 32-bit labels, \<open>np.uint32(-1)\<close> is the largest of them.
\<close>

definition ll2ra :: "32 word list \<Rightarrow> sample list \<Rightarrow> error + sample list" where
  "ll2ra matrix_ll2ra grid =
     (case np_gather grid (map uint matrix_ll2ra) of
        Inl e \<Rightarrow> Inl e
      | Inr gathered \<Rightarrow>
          Inr (map (\<lambda>(m, v). if m \<noteq> - 1 then v else NaN) (zip matrix_ll2ra gathered)))"

text \<open>
  \<open>intf_ll2ra\<close> (source lines 324 to 363). The helper check reads
  \<open>not 'lat' in grids.dims and 'lon' in grid.dims\<close>: the name \<open>grid\<close> is bound nowhere
  in this scope, so evaluating the second operand raises NameError; Python evaluates it
  exactly when the first operand is true. \<open>interp_like\<close> is xarray's nearest-neighbour
  resampling onto the translation table's grid, taken as a parameter.
  \<open>chunk({'lat': -1, 'lon': -1})\<close> raises ValueError for a raster without a \<open>lon\<close>
  dimension. \<open>apply_ufunc\<close> hands \<open>ll2ra\<close> one dask block at a time, with the core
  dimensions last and in the order \<open>lat\<close>, \<open>lon\<close>: a raster kept as \<open>lon\<close>, \<open>lat\<close>
  is transposed, and \<open>grid.reshape(-1)\<close> flattens all the layers of a block together, so
  that every block of the leading axis (of the sizes \<open>stack_chunks\<close>) yields one layer.
  A raster of two dimensions is a single block of one layer.
\<close>

definition transpose_layer :: "nat \<Rightarrow> nat \<Rightarrow> 'a list \<Rightarrow> 'a list" where
  "transpose_layer n0 n1 vals =
     concat (map (\<lambda>j. map (\<lambda>i. vals ! (i * n1 + j)) [0..<n0]) [0..<n1])"

definition intf_ll2ra ::
  "(sample dataarray \<Rightarrow> sample dataarray) \<Rightarrow> nat list \<Rightarrow> 32 word dataarray
   \<Rightarrow> sample dataarray \<Rightarrow> error + (sample dataarray \<times> string list)" where
  "intf_ll2ra interp_like stack_chunks matrix_ll2ra grids =
     (if \<not> ''lat'' \<in> set (dims grids) then Inl NameError
      else
        (let grids' = interp_like grids
         in if \<not> ''lon'' \<in> set (dims grids') then Inl ValueError
            else
              (let m = concat (layers matrix_ll2ra);
                   core = (if axis0 grids' = ''lon'' \<and> axis1 grids' = ''lat''
                           then map (transpose_layer (length (coord0 grids'))
                                       (length (coord1 grids'))) (layers grids')
                           else layers grids');
                   blocks_in = (if length (dims grids') = 2 then [concat (take 1 core)]
                                else map (\<lambda>b. concat (chunk_slice stack_chunks b core))
                                       [0..<length stack_chunks])
               in case collect (map (ll2ra m) blocks_in) of
                    Inl e \<Rightarrow> Inl e
                  | Inr vs \<Rightarrow>
                      Inr (\<lparr>dims = (if length (dims grids') = 2 then [''y'', ''x'']
                                     else [hd (dims grids'), ''y'', ''x'']),
                            coord0 = coord0 matrix_ll2ra, coord1 = coord1 matrix_ll2ra,
                            layers = vs\<rparr>, []))))"

subsection \<open>Well-formed inputs and the specification's wording\<close>

text \<open>
  In an xarray dataset every variable on the same dimensions has the same shape: the
  three variables of \<open>trans_dat\<close> are rectangular and equally large.
\<close>

definition rectangular :: "nat \<Rightarrow> nat \<Rightarrow> 'a list list \<Rightarrow> bool" where
  "rectangular nrows ncols arr \<longleftrightarrow> length arr = nrows \<and> list_all (\<lambda>r. length r = ncols) arr"

text \<open>The label array is cut into the same blocks as the dataset.\<close>

definition aligned_labels :: "trans_dat \<Rightarrow> bool" where
  "aligned_labels td \<longleftrightarrow>
     idx_lat_chunks td = lat_chunks td \<and> idx_lon_chunks td = lon_chunks td"

definition wf_trans_dat :: "trans_dat \<Rightarrow> bool" where
  "wf_trans_dat td \<longleftrightarrow>
     rectangular (fst (ll_shape td)) (snd (ll_shape td)) (ll td)
     \<and> rectangular (fst (ll_shape td)) (snd (ll_shape td)) (azi td)
     \<and> rectangular (fst (ll_shape td)) (snd (ll_shape td)) (rng td)"

text \<open>
  The specification's wording of the block pruning: a block is a candidate when its
  bounding box and the chunk's bounds, widened by one unit on each side, have a point
  in common.
\<close>

definition in_box :: "real \<Rightarrow> real \<Rightarrow> real \<Rightarrow> real \<Rightarrow> point \<Rightarrow> bool" where
  "in_box ymin ymax xmin xmax p \<longleftrightarrow>
     ymin \<le> fst p \<and> fst p \<le> ymax \<and> xmin \<le> snd p \<and> snd p \<le> xmax"

definition boxes_intersect :: "extent \<Rightarrow> real \<Rightarrow> real \<Rightarrow> real \<Rightarrow> real \<Rightarrow> bool" where
  "boxes_intersect e ymin ymax xmin xmax \<longleftrightarrow>
     (\<exists>p. in_box (e_ymin e) (e_ymax e) (e_xmin e) (e_xmax e) p
          \<and> in_box (ymin - 1) (ymax + 1) (xmin - 1) (xmax + 1) p)"

definition wf_extent :: "extent \<Rightarrow> bool" where
  "wf_extent e \<longleftrightarrow> e_ymin e \<le> e_ymax e \<and> e_xmin e \<le> e_xmax e"

text \<open>
  The table cell by cell: the azimuth, the range and the label of every cell of the
  grid of \<open>ll\<close>.
\<close>

definition cells :: "trans_dat \<Rightarrow> (real \<times> real \<times> 32 word) list list" where
  "cells td =
     map (\<lambda>i. map (\<lambda>j. (azi td ! i ! j, rng td ! i ! j, of_nat (i * snd (ll_shape td) + j)))
                [0..<snd (ll_shape td)])
         [0..<fst (ll_shape td)]"

subsection \<open>A small translation table\<close>

text \<open>
  Two translation-table points on one row of the geographic grid, at longitudes 0 and
  100, both next to the radar cell at azimuth 0 and range 0; once as rows of
  \<open>trans.dat\<close>, once as the dataset with its single block.
\<close>

abbreviation demo_rows :: "trans_row list" where
  "demo_rows \<equiv>
     [\<lparr>col_r = 0, col_a = 1, col_topo = 0, col_lon = 0, col_lat = 0\<rparr>,
      \<lparr>col_r = 0, col_a = 0, col_topo = 0, col_lon = 100, col_lat = 0\<rparr>]"

abbreviation demo_dat :: trans_dat where
  "demo_dat \<equiv>
     \<lparr>lat = [0], lon = [0, 100], ll = [[0, 0]], azi = [[1, 0]], rng = [[0, 0]],
      lat_chunks = [1], lon_chunks = [2], idx_lat_chunks = [1], idx_lon_chunks = [2]\<rparr>"

abbreviation demo_extents :: "extent list" where
  "demo_extents \<equiv>
     [\<lparr>e_iy = 0, e_ix = 0, e_ymin = 0, e_ymax = 1, e_xmin = 0, e_xmax = 0\<rparr>]"

abbreviation demo_trans_ra2ll :: "int dataarray" where
  "demo_trans_ra2ll \<equiv>
     \<lparr>dims = [''lat'', ''lon''], coord0 = [0], coord1 = [0, 100], layers = [[0, 1]]\<rparr>"

subsection \<open>The round trip, in the specification's wording\<close>

text \<open>
  The geographic location of the flat cell \<open>c\<close> of the full-area matrix, and of the
  translation-table point with a given label: the latitude and longitude labels of its
  row and column.
\<close>

definition cell_latlon :: "int dataarray \<Rightarrow> nat \<Rightarrow> point" where
  "cell_latlon trans_ra2ll c =
     (coord0 trans_ra2ll ! (c div length (coord1 trans_ra2ll)),
      coord1 trans_ra2ll ! (c mod length (coord1 trans_ra2ll)))"

definition label_latlon :: "trans_dat \<Rightarrow> 32 word \<Rightarrow> point" where
  "label_latlon td w =
     (lat td ! (unat w div snd (ll_shape td)), lon td ! (unat w mod snd (ll_shape td)))"

text \<open>
  The round-trip bound as the specification words it: for every geographic cell whose
  forward entry is not -1, the inverse matrix at that radar cell names a
  translation-table point whose geographic location is within the tolerance of the cell.
\<close>

definition round_trip_bound ::
  "real \<Rightarrow> int list \<Rightarrow> 32 word list \<Rightarrow> int dataarray \<Rightarrow> trans_dat \<Rightarrow> bool" where
  "round_trip_bound tolerance forward_matrix inverse_matrix trans_ra2ll td \<longleftrightarrow>
     (\<forall>c<length forward_matrix. forward_matrix ! c \<noteq> - 1 \<longrightarrow>
        dist_yx (label_latlon td (inverse_matrix ! nat (forward_matrix ! c)))
                (cell_latlon trans_ra2ll c) \<le> tolerance)"

subsection \<open>The coincident translation table\<close>

text \<open>
  One translation-table point on every cell center of the radar grid with the axes
  0, 1, 2, 3, in the order of the cells.
\<close>

abbreviation coincident_rows :: "trans_row list" where
  "coincident_rows \<equiv>
     map (\<lambda>(y, x). \<lparr>col_r = x, col_a = y, col_topo = 0, col_lon = x, col_lat = y\<rparr>)
       (intf_yxs [0, 1, 2, 3] [0, 1, 2, 3])"

subsection \<open>A table of one column\<close>

text \<open>
  A translation table of one column and \<open>n + 1\<close> rows whose azimuth is the row number
  and whose range is 0. Its last row is a block of its own, of the dataset and of the
  label array alike. \<open>column_extents\<close> are the bounds of its two blocks.
\<close>

definition column_table :: "nat \<Rightarrow> trans_dat" where
  "column_table n =
     \<lparr>lat = map real [0..<Suc n], lon = [0], ll = map (\<lambda>i. [0]) [0..<Suc n],
      azi = map (\<lambda>i. [real i]) [0..<Suc n], rng = map (\<lambda>i. [0]) [0..<Suc n],
      lat_chunks = [n, 1], lon_chunks = [1], idx_lat_chunks = [n, 1], idx_lon_chunks = [1]\<rparr>"

definition column_extents :: "nat \<Rightarrow> extent list" where
  "column_extents n =
     [\<lparr>e_iy = 0, e_ix = 0, e_ymin = 0, e_ymax = real n - 1, e_xmin = 0, e_xmax = 0\<rparr>,
      \<lparr>e_iy = 1, e_ix = 0, e_ymin = real n, e_ymax = real n, e_xmin = 0, e_xmax = 0\<rparr>]"

subsection \<open>A table whose labels are cut finer than the dataset\<close>

text \<open>
  Three translation-table points in one column, at the azimuths 0, 4 and 8. The dataset
  has the row blocks of 2 and 1 rows; the automatic chunks cut the label array after the
  first row, so that, unified with the blocks of the dataset, it has three row blocks of
  one row each. \<open>tall_extents\<close> are the bounds of the dataset's two blocks.
\<close>

abbreviation tall_dat :: trans_dat where
  "tall_dat \<equiv>
     \<lparr>lat = [0, 1, 2], lon = [0], ll = [[0], [0], [0]], azi = [[0], [4], [8]],
      rng = [[0], [0], [0]], lat_chunks = [2, 1], lon_chunks = [1],
      idx_lat_chunks = [1, 1, 1], idx_lon_chunks = [1]\<rparr>"

abbreviation tall_extents :: "extent list" where
  "tall_extents \<equiv>
     [\<lparr>e_iy = 0, e_ix = 0, e_ymin = 0, e_ymax = 4, e_xmin = 0, e_xmax = 0\<rparr>,
      \<lparr>e_iy = 1, e_ix = 0, e_ymin = 8, e_ymax = 8, e_xmin = 0, e_xmax = 0\<rparr>]"

subsection \<open>A table with a block out of reach\<close>

text \<open>
  Two translation-table points, each a block of its own: one at azimuth -3 and range 0,
  three away from the radar cell at azimuth 0 and range 0, the other at azimuth 8 and
  range 6; once as rows of \<open>trans.dat\<close>, once as the dataset, with the bounds of the two
  blocks and the full-area matrix of the two geographic cells.
\<close>

abbreviation split_rows :: "trans_row list" where
  "split_rows \<equiv>
     [\<lparr>col_r = 0, col_a = - 3, col_topo = 0, col_lon = 0, col_lat = 0\<rparr>,
      \<lparr>col_r = 6, col_a = 8, col_topo = 0, col_lon = 0, col_lat = 50\<rparr>]"

abbreviation split_dat :: trans_dat where
  "split_dat \<equiv>
     \<lparr>lat = [0, 50], lon = [0], ll = [[0], [0]], azi = [[- 3], [8]], rng = [[0], [6]],
      lat_chunks = [1, 1], lon_chunks = [1], idx_lat_chunks = [1, 1], idx_lon_chunks = [1]\<rparr>"

abbreviation split_extents :: "extent list" where
  "split_extents \<equiv>
     [\<lparr>e_iy = 0, e_ix = 0, e_ymin = - 3, e_ymax = - 3, e_xmin = 0, e_xmax = 0\<rparr>,
      \<lparr>e_iy = 1, e_ix = 0, e_ymin = 8, e_ymax = 8, e_xmin = 6, e_xmax = 6\<rparr>]"

abbreviation split_trans_ra2ll :: "int dataarray" where
  "split_trans_ra2ll \<equiv>
     \<lparr>dims = [''lat'', ''lon''], coord0 = [0, 50], coord1 = [0], layers = [[0, 1]]\<rparr>"

section \<open>Auxiliary facts\<close>

subsection \<open>Sequencing and indexing\<close>

lemma collect_Inr:
  "collect rs = Inr vs \<Longrightarrow> length vs = length rs \<and> (\<forall>i<length rs. rs ! i = Inr (vs ! i))"
proof (induction rs arbitrary: vs)
  case Nil
  then show ?case by simp
next
  case (Cons r rs)
  then obtain v vs' where r: "r = Inr v" and c: "collect rs = Inr vs'" and vs: "vs = v # vs'"
    by (auto split: sum.splits)
  from Cons.IH [OF c] show ?case
    by (auto simp: r vs nth_Cons split: nat.splits)
qed

lemma collect_all_Inr:
  "(\<forall>r \<in> set rs. \<exists>v. r = Inr v) \<Longrightarrow> \<exists>vs. collect rs = Inr vs"
  by (induction rs) (auto split: sum.splits)

lemma np_gather_Inr:
  assumes "np_gather arr idx = Inr vs"
  shows "length vs = length idx" and "\<And>i. i < length idx \<Longrightarrow> np_take arr (idx ! i) = Inr (vs ! i)"
  using collect_Inr [of "map (np_take arr) idx" vs] assms
  by (auto simp: np_gather_def)

lemma np_index_Inr: "np_index n i = Inr k \<Longrightarrow> k < n"
  by (auto simp: np_index_def split: if_splits)

lemma np_take_in_set: "np_take arr i = Inr v \<Longrightarrow> v \<in> set arr"
  by (auto simp: np_take_def split: sum.splits dest: np_index_Inr)

lemma np_take_nonneg: "np_take arr i = Inr v \<Longrightarrow> 0 \<le> i \<Longrightarrow> nat i < length arr \<and> v = arr ! nat i"
  by (auto simp: np_take_def np_index_def split: sum.splits if_splits)

lemma np_gather_set: "np_gather arr idx = Inr vs \<Longrightarrow> set vs \<subseteq> set arr"
  using np_gather_Inr [of arr idx vs] np_take_in_set
  by (fastforce simp: in_set_conv_nth)

lemma nearest_None: "nearest ps q = None \<longleftrightarrow> ps = []"
  by (induction ps) (auto split: option.splits)

lemma nearest_Some:
  "nearest ps q = Some (d, i) \<Longrightarrow>
     i < length ps \<and> d = dist_yx (ps ! i) q \<and> (\<forall>k<length ps. d \<le> dist_yx (ps ! k) q)"
proof (induction ps arbitrary: d i)
  case Nil
  then show ?case by simp
next
  case (Cons p ps)
  show ?case
  proof (cases "nearest ps q")
    case None
    then have "ps = []" by (simp add: nearest_None)
    with Cons.prems None show ?thesis by auto
  next
    case (Some r)
    obtain d' i' where r: "r = (d', i')" by (cases r)
    note IH = Cons.IH [OF Some [unfolded r]]
    show ?thesis
    proof (cases "dist_yx p q \<le> d'")
      case True
      with Cons.prems Some r have "d = dist_yx p q" "i = 0" by auto
      with IH True show ?thesis by (auto simp: nth_Cons split: nat.splits)
    next
      case False
      with Cons.prems Some r have "d = d'" "i = Suc i'" by auto
      with IH False show ?thesis by (auto simp: nth_Cons split: nat.splits)
    qed
  qed
qed

lemma length_intf_yxs: "length (intf_yxs ys xs) = length ys * length xs"
  by (induction ys) (auto simp: intf_yxs_def)

lemma query_bounded_index:
  "query data q (Some u) = (d, ind) \<Longrightarrow> d \<noteq> None \<Longrightarrow> ind < length data"
  by (auto simp: query_def split: option.splits if_splits dest: nearest_Some)

lemma query_bounded_far:
  assumes "\<forall>p \<in> set data. u < dist_yx p q"
  shows "fst (query data q (Some u)) = None"
proof (cases "nearest data q")
  case None
  then show ?thesis by (simp add: query_def)
next
  case (Some r)
  obtain d i where r: "r = (d, i)" by (cases r)
  from nearest_Some [OF Some [unfolded r]] have "i < length data" "d = dist_yx (data ! i) q"
    by auto
  with assms have "u < d" by auto
  with Some r show ?thesis by (simp add: query_def)
qed

lemma intf2trans_range:
  assumes "v \<in> set (intf2trans ys xs limit trans_tab)"
  shows "v = - 1 \<or> (0 \<le> v \<and> v < int (length ys * length xs))"
proof -
  from assms obtain q where v: "v = (case query (intf_yxs ys xs) q (Some limit) of
       (d, ind) \<Rightarrow> if d \<noteq> None then int ind else - 1)"
    by (auto simp: intf2trans_def)
  obtain d ind where qr: "query (intf_yxs ys xs) q (Some limit) = (d, ind)"
    by (cases "query (intf_yxs ys xs) q (Some limit)")
  show ?thesis
  proof (cases "d = None")
    case True
    with v qr show ?thesis by simp
  next
    case False
    with query_bounded_index [OF qr] have "ind < length ys * length xs"
      by (simp add: length_intf_yxs)
    then have "int ind < int (length ys * length xs)"
      by (simp only: of_nat_less_iff)
    moreover from v qr False have "v = int ind" by simp
    ultimately show ?thesis by simp
  qed
qed

lemma intf_ra2ll_values_Inr:
  assumes "intf_ra2ll_values ys xs trans_tab trans_ra2ll = Inr m"
  obtains limit picked where
    "trans_tab \<noteq> []" "distance_limit ys xs = Inr limit"
    "np_gather (intf2trans ys xs limit trans_tab) trans_ra2ll = Inr picked"
    "m = map (\<lambda>(t, v). if t \<ge> 0 then v else - 1) (zip trans_ra2ll picked)"
  using assms by (auto simp: intf_ra2ll_values_def split: if_splits sum.splits)

lemma intf_ra2ll_values_range:
  assumes "intf_ra2ll_values ys xs trans_tab trans_ra2ll = Inr m" and "v \<in> set m"
  shows "v = - 1 \<or> (0 \<le> v \<and> v < int (length ys * length xs))"
proof -
  from assms(1) obtain limit picked where
    g: "np_gather (intf2trans ys xs limit trans_tab) trans_ra2ll = Inr picked" and
    m: "m = map (\<lambda>(t, v). if t \<ge> 0 then v else - 1) (zip trans_ra2ll picked)"
    by (rule intf_ra2ll_values_Inr)
  from assms(2) m obtain t w where "(t, w) \<in> set (zip trans_ra2ll picked)"
    and v: "v = (if t \<ge> 0 then w else - 1)" by auto
  then have "w \<in> set picked" by (auto dest: set_zip_rightD)
  with np_gather_set [OF g] have "w \<in> set (intf2trans ys xs limit trans_tab)" by auto
  from intf2trans_range [OF this] v show ?thesis by auto
qed

lemma intf_ra2ll_values_length:
  assumes "intf_ra2ll_values ys xs trans_tab trans_ra2ll = Inr m"
  shows "length m = length trans_ra2ll"
proof -
  from assms obtain limit picked where
    g: "np_gather (intf2trans ys xs limit trans_tab) trans_ra2ll = Inr picked" and
    m: "m = map (\<lambda>(t, v). if t \<ge> 0 then v else - 1) (zip trans_ra2ll picked)"
    by (rule intf_ra2ll_values_Inr)
  from np_gather_Inr(1) [OF g] m show ?thesis by simp
qed

lemma np_max_Inr: "arr \<noteq> [] \<Longrightarrow> np_max arr = Inr (Max (set arr))"
proof (cases arr)
  case (Cons v vs)
  have "fold max vs v = Max (set (v # vs))" by (rule Max.set_eq_fold [symmetric])
  with Cons show ?thesis by (simp add: np_max_def)
qed simp

lemma np_min_Inr: "arr \<noteq> [] \<Longrightarrow> np_min arr = Inr (Min (set arr))"
proof (cases arr)
  case (Cons v vs)
  have "fold min vs v = Min (set (v # vs))" by (rule Min.set_eq_fold [symmetric])
  with Cons show ?thesis by (simp add: np_min_def)
qed simp

subsection \<open>The forward matrix\<close>

lemma sqrt_less_iff_sq: "0 \<le> u \<Longrightarrow> (sqrt v < u) = (v < u\<^sup>2)"
  by (metis abs_of_nonneg real_sqrt_abs real_sqrt_less_iff)

lemma less_sqrt_iff_sq: "0 \<le> u \<Longrightarrow> (u < sqrt v) = (u\<^sup>2 < v)"
  by (metis abs_of_nonneg real_sqrt_abs real_sqrt_less_iff)

lemma sqrt_25: "sqrt 25 = 5"
  by (rule real_sqrt_unique) simp_all

lemma intf_ra2ll_post_check_Inr:
  assumes "intf_ra2ll_post_check files f n trans_ra2ll mvals = Inr files'"
  shows "mvals \<noteq> [] \<and> Max (set mvals) < int n
     \<and> files' = files(f \<mapsto> (trans_ra2ll\<lparr>layers := [mvals]\<rparr>, [(''node_offset'', 1)]))"
proof -
  from assms obtain mx where mx: "np_max mvals = Inr mx"
    by (auto simp: intf_ra2ll_post_check_def split: sum.splits)
  then have ne: "mvals \<noteq> []" by (auto simp: np_max_def)
  with mx have "mx = Max (set mvals)" by (simp add: np_max_Inr)
  with assms mx ne show ?thesis
    by (auto simp: intf_ra2ll_post_check_def split: if_splits)
qed


lemma intf_ra2ll_matrix_Inr:
  assumes "intf_ra2ll_matrix files f ys xs trans_tab trans_ra2ll = Inr files'"
  obtains mvals where
    "intf_ra2ll_values ys xs trans_tab (concat (layers trans_ra2ll)) = Inr mvals"
    "mvals \<noteq> []"
    "Max (set mvals) < int (length ys * length xs)"
    "files' = files(f \<mapsto> (trans_ra2ll\<lparr>layers := [mvals]\<rparr>, [(''node_offset'', 1)]))"
proof -
  from assms obtain mvals where
    v: "intf_ra2ll_values ys xs trans_tab (concat (layers trans_ra2ll)) = Inr mvals"
    and c: "intf_ra2ll_post_check files f (length ys * length xs) trans_ra2ll mvals = Inr files'"
    by (auto simp: intf_ra2ll_matrix_def Let_def split: sum.splits)
  from intf_ra2ll_post_check_Inr [OF c] v show ?thesis by (auto intro: that)
qed

lemma limit_8_6: "distance_limit [0, 8] [0, 6] = Inr (5 + 1 / 100)"
  by (simp add: distance_limit_def sqrt_25)

subsection \<open>The inverse matrix\<close>

lemma chunk_slice_set: "set (chunk_slice cs i arr) \<subseteq> set arr"
  by (auto simp: chunk_slice_def dest: in_set_takeD in_set_dropD)

lemma blocks_Inr:
  assumes "blocks rc cc arr iy ix = Inr b"
  obtains i j where "b = map (chunk_slice cc j) (chunk_slice rc i arr)"
    "np_index (length rc) iy = Inr i" "np_index (length cc) ix = Inr j"
  using assms by (auto simp: blocks_def split: sum.splits)

lemma blocks_set:
  assumes "blocks rc cc arr iy ix = Inr b"
  shows "set (concat b) \<subseteq> set (concat arr)"
proof -
  from assms obtain i j where b: "b = map (chunk_slice cc j) (chunk_slice rc i arr)"
    by (rule blocks_Inr)
  show ?thesis
  proof
    fix v assume "v \<in> set (concat b)"
    with b obtain r where "r \<in> set (chunk_slice rc i arr)" "v \<in> set (chunk_slice cc j r)"
      by auto
    with chunk_slice_set [of rc i arr] chunk_slice_set [of cc j r]
    show "v \<in> set (concat arr)" by auto
  qed
qed

lemma map_length_chunk_slice:
  "map length (chunk_slice cs i arr) = chunk_slice cs i (map length arr)"
  by (simp add: chunk_slice_def take_map drop_map)

lemma length_chunk_slice:
  "length (chunk_slice cs j r) = min (cs ! j) (length r - chunk_start cs j)"
  by (simp add: chunk_slice_def min.commute)

lemma blocks_same_shape:
  assumes "map length A = map length B"
    and "blocks rc cc A iy ix = Inr a" and "blocks rc cc B iy ix = Inr b"
  shows "length (concat a) = length (concat b)"
proof -
  from assms(2) obtain i j where a: "a = map (chunk_slice cc j) (chunk_slice rc i A)"
    and i: "np_index (length rc) iy = Inr i" and j: "np_index (length cc) ix = Inr j"
    by (rule blocks_Inr)
  from assms(3) i j have b: "b = map (chunk_slice cc j) (chunk_slice rc i B)"
    by (simp add: blocks_def)
  have "map length a = map (\<lambda>n. min (cc ! j) (n - chunk_start cc j)) (chunk_slice rc i (map length A))"
    by (simp add: a length_chunk_slice map_length_chunk_slice [symmetric] comp_def)
  moreover have "map length b = map (\<lambda>n. min (cc ! j) (n - chunk_start cc j)) (chunk_slice rc i (map length B))"
    by (simp add: b length_chunk_slice map_length_chunk_slice [symmetric] comp_def)
  ultimately have "map length a = map length b" using assms(1) by simp
  then show ?thesis by (simp add: length_concat)
qed

lemma rectangular_map_length:
  "rectangular n m arr \<Longrightarrow> map length arr = replicate n m"
  by (auto simp: rectangular_def list_all_iff intro!: nth_equalityI)

lemma rectangular_trans_idx:
  "rectangular (fst (ll_shape td)) (snd (ll_shape td)) (trans_idx td)"
  by (simp add: rectangular_def trans_idx_def list_all_iff)

lemma trans_idx_label:
  assumes "w \<in> set (concat (trans_idx td))"
  shows "\<exists>k<ll_size td. w = of_nat k"
proof -
  from assms obtain i j where i: "i < fst (ll_shape td)" and j: "j < snd (ll_shape td)"
    and w: "w = of_nat (i * snd (ll_shape td) + j)"
    by (auto simp: trans_idx_def)
  have "i * snd (ll_shape td) + j < Suc i * snd (ll_shape td)" using j by simp
  also have "\<dots> \<le> fst (ll_shape td) * snd (ll_shape td)"
    using i by (intro mult_le_mono1) simp
  finally show ?thesis using w by (auto simp: ll_size_def)
qed

lemma gather_block_Inr:
  assumes "gather_block td e = Inr (a, r, ix)"
  obtains ba br bi where
    "blocks (lat_chunks td) (lon_chunks td) (azi td) (astype_int (e_iy e)) (astype_int (e_ix e)) = Inr ba"
    "blocks (lat_chunks td) (lon_chunks td) (rng td) (astype_int (e_iy e)) (astype_int (e_ix e)) = Inr br"
    "blocks (idx_lat_chunks td) (idx_lon_chunks td) (trans_idx td) (astype_int (e_iy e)) (astype_int (e_ix e)) = Inr bi"
    "a = concat ba" "r = concat br" "ix = concat bi"
  using assms by (auto simp: gather_block_def Let_def split: sum.splits)

lemma gather_block_labels:
  assumes "gather_block td e = Inr (a, r, ix)"
  shows "set ix \<subseteq> set (concat (trans_idx td))"
proof -
  from assms obtain bi where
    "blocks (idx_lat_chunks td) (idx_lon_chunks td) (trans_idx td) (astype_int (e_iy e)) (astype_int (e_ix e)) = Inr bi"
    "ix = concat bi"
    by (rule gather_block_Inr)
  with blocks_set [of "idx_lat_chunks td" "idx_lon_chunks td" "trans_idx td" _ _ bi]
  show ?thesis by simp
qed

lemma gather_block_lengths:
  assumes "wf_trans_dat td" and "aligned_labels td" and "gather_block td e = Inr (a, r, ix)"
  shows "length a = length ix \<and> length r = length ix"
proof -
  from assms(1) have
    "map length (azi td) = map length (trans_idx td)"
    "map length (rng td) = map length (trans_idx td)"
    using rectangular_trans_idx [of td]
    by (simp_all add: wf_trans_dat_def rectangular_map_length)
  with assms(2,3) show ?thesis
    by (auto simp: aligned_labels_def elim!: gather_block_Inr dest: blocks_same_shape)
qed

lemma collect_map_Inr:
  assumes "collect (map f xs) = Inr vs"
  shows "length vs = length xs" and "\<And>i. i < length xs \<Longrightarrow> f (xs ! i) = Inr (vs ! i)"
  using collect_Inr [OF assms] by auto

lemma collect_map_set:
  assumes "collect (map f xs) = Inr vs" and "v \<in> set vs"
  shows "\<exists>x \<in> set xs. f x = Inr v"
proof -
  from assms(2) obtain i where "i < length vs" "v = vs ! i" by (auto simp: in_set_conv_nth)
  with collect_map_Inr [OF assms(1)] show ?thesis by (metis nth_mem)
qed

lemma gather_blocks_Inr:
  assumes "gather_blocks td bs = Inr (src, idxs)"
  obtains parts where "collect (map (gather_block td) bs) = Inr parts" "parts \<noteq> []"
    "length (concat (map fst parts)) = length (concat (map (fst \<circ> snd) parts))"
    "src = zip (concat (map fst parts)) (concat (map (fst \<circ> snd) parts))"
    "idxs = concat (map (snd \<circ> snd) parts)"
  using assms by (auto simp: gather_blocks_def Let_def split: sum.splits if_splits)

lemma gather_blocks_labels:
  assumes "gather_blocks td bs = Inr (src, idxs)"
  shows "set idxs \<subseteq> set (concat (trans_idx td))"
proof
  fix w assume w: "w \<in> set idxs"
  from assms obtain parts where c: "collect (map (gather_block td) bs) = Inr parts"
    and idxs: "idxs = concat (map (snd \<circ> snd) parts)"
    by (rule gather_blocks_Inr)
  from w idxs obtain part where part: "part \<in> set parts" and wp: "w \<in> set (snd (snd part))"
    by auto
  from collect_map_set [OF c part] obtain e where "gather_block td e = Inr part" by auto
  with gather_block_labels [of td e "fst part" "fst (snd part)" "snd (snd part)"] wp
  show "w \<in> set (concat (trans_idx td))" by auto
qed

lemma gather_blocks_lengths:
  assumes "wf_trans_dat td" and "aligned_labels td"
    and "gather_blocks td bs = Inr (src, idxs)"
  shows "length src = length idxs"
proof -
  from assms(3) obtain parts where c: "collect (map (gather_block td) bs) = Inr parts"
    and eq: "length (concat (map fst parts)) = length (concat (map (fst \<circ> snd) parts))"
    and src: "src = zip (concat (map fst parts)) (concat (map (fst \<circ> snd) parts))"
    and idxs: "idxs = concat (map (snd \<circ> snd) parts)"
    by (rule gather_blocks_Inr)
  have "length (fst part) = length (snd (snd part))" if "part \<in> set parts" for part
  proof -
    from collect_map_set [OF c that] obtain e where "gather_block td e = Inr part" by auto
    with gather_block_lengths [OF assms(1,2), of e "fst part" "fst (snd part)" "snd (snd part)"]
    show ?thesis by simp
  qed
  then have "map (\<lambda>x. length (fst x)) parts = map (\<lambda>x. length (snd (snd x))) parts" by simp
  then have "(\<Sum>x\<leftarrow>parts. length (fst x)) = (\<Sum>x\<leftarrow>parts. length (snd (snd x)))"
    by (rule arg_cong)
  then have "length (concat (map fst parts)) = length (concat (map (snd \<circ> snd) parts))"
    by (simp add: length_concat comp_def)
  with eq src idxs show ?thesis by simp
qed

lemma np_gather_valid:
  assumes "\<forall>i \<in> set idx. 0 \<le> i \<and> i < int (length arr)"
  shows "np_gather arr idx = Inr (map (\<lambda>i. arr ! nat i) idx)"
  using assms unfolding np_gather_def
  by (induction idx) (auto simp: np_take_def np_index_def)

lemma query_unbounded:
  assumes "data \<noteq> []"
  obtains d i where "query data q None = (Some d, i)" "i < length data"
    "d = dist_yx (data ! i) q" "\<forall>k<length data. d \<le> dist_yx (data ! k) q"
proof -
  from assms obtain r where r: "nearest data q = Some r"
    by (cases "nearest data q") (auto simp: nearest_None)
  obtain d i where di: "r = (d, i)" by (cases r)
  from r di have n: "nearest data q = Some (d, i)" by simp
  then have "query data q None = (Some d, i)" by (simp add: query_def)
  moreover from nearest_Some [OF n] have "i < length data" "d = dist_yx (data ! i) q"
    "\<forall>k<length data. d \<le> dist_yx (data ! k) q" by auto
  ultimately show ?thesis by (rule that)
qed

lemma calc_intf_ll2ra_matrix_Inr:
  assumes "calc_intf_ll2ra_matrix td ext azi_c rng_c = Inr M"
  obtains src idxs where
    "length azi_c = length rng_c" "azi_c \<noteq> []"
    "gather_blocks td (candidate_blocks ext (Min (set azi_c)) (Max (set azi_c))
        (Min (set rng_c)) (Max (set rng_c))) = Inr (src, idxs)"
    "np_gather idxs (map (\<lambda>q. int (snd (query src q None))) (zip azi_c rng_c)) = Inr M"
proof -
  from assms have len: "length azi_c = length rng_c"
    by (auto simp: calc_intf_ll2ra_matrix_def split: if_splits)
  have ne: "azi_c \<noteq> []"
  proof
    assume "azi_c = []"
    with assms len show False by (simp add: calc_intf_ll2ra_matrix_def np_min_def)
  qed
  with len have ne': "rng_c \<noteq> []" by auto
  from assms len ne ne' obtain src idxs where
    "gather_blocks td (candidate_blocks ext (Min (set azi_c)) (Max (set azi_c))
        (Min (set rng_c)) (Max (set rng_c))) = Inr (src, idxs)"
    "np_gather idxs (map (\<lambda>q. int (snd (query src q None))) (zip azi_c rng_c)) = Inr M"
    by (auto simp: calc_intf_ll2ra_matrix_def np_min_Inr np_max_Inr Let_def comp_def
        split: sum.splits prod.splits)
  with len ne show ?thesis by (rule that)
qed

lemma calc_intf_ll2ra_matrix_labels:
  assumes "calc_intf_ll2ra_matrix td ext azi_c rng_c = Inr M" and "w \<in> set M"
  shows "\<exists>k<ll_size td. w = of_nat k"
proof -
  from assms(1) obtain src idxs where
    g: "gather_blocks td (candidate_blocks ext (Min (set azi_c)) (Max (set azi_c))
        (Min (set rng_c)) (Max (set rng_c))) = Inr (src, idxs)"
    and M: "np_gather idxs (map (\<lambda>q. int (snd (query src q None))) (zip azi_c rng_c)) = Inr M"
    by (rule calc_intf_ll2ra_matrix_Inr)
  from np_gather_set [OF M] assms(2) have "w \<in> set idxs" by auto
  with gather_blocks_labels [OF g] have "w \<in> set (concat (trans_idx td))" by auto
  then show ?thesis by (rule trans_idx_label)
qed

lemma intf_ll2ra_matrix_labels:
  assumes "intf_ll2ra_matrix td ext ys xs yc xc = Inr M" and "blk \<in> set M" and "w \<in> set blk"
  shows "\<exists>k<ll_size td. w = of_nat k"
proof -
  from assms(1) have c: "collect (map (\<lambda>(azi_c, rng_c). calc_intf_ll2ra_matrix td ext azi_c rng_c)
      (radar_chunks ys xs yc xc)) = Inr M"
    by (simp add: intf_ll2ra_matrix_def)
  from collect_map_set [OF c assms(2)] obtain azi_c rng_c where
    "calc_intf_ll2ra_matrix td ext azi_c rng_c = Inr blk" by auto
  then show ?thesis using assms(3) by (rule calc_intf_ll2ra_matrix_labels)
qed

lemma unat_label_le: "unat (of_nat k :: 32 word) \<le> k"
  by (simp add: unat_of_nat)

lemma label_not_sentinel:
  assumes "k < 2 ^ 32 - 1"
  shows "(of_nat k :: 32 word) \<noteq> - 1"
proof
  assume "(of_nat k :: 32 word) = - 1"
  then have "unat (of_nat k :: 32 word) = unat (- 1 :: 32 word)" by simp
  moreover have "unat (- 1 :: 32 word) = 2 ^ 32 - 1"
    by (simp add: unsigned_minus_1_eq_mask mask_eq_exp_minus_1)
  ultimately show False using assms by (simp add: unat_of_nat)
qed

lemma boxes_intersect_iff:
  assumes "wf_extent e" and "ymin \<le> ymax" and "xmin \<le> xmax"
  shows "boxes_intersect e ymin ymax xmin xmax \<longleftrightarrow>
     (e_ymax e \<ge> ymin - 1 \<and> e_ymin e \<le> ymax + 1) \<and> (e_xmax e \<ge> xmin - 1 \<and> e_xmin e \<le> xmax + 1)"
proof
  assume "boxes_intersect e ymin ymax xmin xmax"
  then show "(e_ymax e \<ge> ymin - 1 \<and> e_ymin e \<le> ymax + 1) \<and> (e_xmax e \<ge> xmin - 1 \<and> e_xmin e \<le> xmax + 1)"
    by (auto simp: boxes_intersect_def in_box_def)
next
  assume h: "(e_ymax e \<ge> ymin - 1 \<and> e_ymin e \<le> ymax + 1) \<and> (e_xmax e \<ge> xmin - 1 \<and> e_xmin e \<le> xmax + 1)"
  let ?p = "(max (e_ymin e) (ymin - 1), max (e_xmin e) (xmin - 1))"
  from h assms have "in_box (e_ymin e) (e_ymax e) (e_xmin e) (e_xmax e) ?p
      \<and> in_box (ymin - 1) (ymax + 1) (xmin - 1) (xmax + 1) ?p"
    by (auto simp: in_box_def wf_extent_def)
  then show "boxes_intersect e ymin ymax xmin xmax"
    unfolding boxes_intersect_def by blast
qed

lemma Min_le_Max_list: "arr \<noteq> [] \<Longrightarrow> Min (set arr) \<le> (Max (set arr) :: real)"
  by (cases arr) (auto intro: order_trans [OF Min_le Max_ge])

lemma candidate_blocks_spec:
  assumes "\<forall>e \<in> set ext. wf_extent e" and "ymin \<le> ymax" and "xmin \<le> xmax"
  shows "candidate_blocks ext ymin ymax xmin xmax
     = filter (\<lambda>e. boxes_intersect e ymin ymax xmin xmax) ext"
  unfolding candidate_blocks_def
  using assms by (intro filter_cong refl) (simp add: boxes_intersect_iff)

lemma mask_all_valid:
  assumes "length g = length m" and "\<forall>a \<in> set m. P a"
  shows "map (\<lambda>(a, v). if P a then v else c) (zip m g) = g"
  using assms by (intro nth_equalityI) auto

subsection \<open>Evaluation on the small translation table\<close>

lemma sqrt_le_iff_sq: "0 \<le> u \<Longrightarrow> (sqrt v \<le> u) = (v \<le> u\<^sup>2)"
  by (metis abs_of_nonneg real_sqrt_abs real_sqrt_le_iff)

lemma le_sqrt_iff_sq: "0 \<le> u \<Longrightarrow> (u \<le> sqrt v) = (u\<^sup>2 \<le> v)"
  by (metis abs_of_nonneg real_sqrt_abs real_sqrt_le_iff)

lemma demo_gather:
  "gather_blocks demo_dat demo_extents = Inr ([(1, 0), (0, 0)], [0, 1])"
  by (simp add: gather_blocks_def gather_block_def blocks_def np_index_def astype_int_def
      chunk_slice_def chunk_start_def trans_idx_def ll_shape_def)

lemma demo_calc:
  "calc_intf_ll2ra_matrix demo_dat demo_extents [0, 0, 8, 8] [0, 6, 0, 6] = Inr [1, 1, 0, 0]"
  using demo_gather
  by (simp add: calc_intf_ll2ra_matrix_def np_min_def np_max_def candidate_blocks_def
      query_def dist_yx_def np_gather_def np_take_def np_index_def
      sqrt_le_iff_sq le_sqrt_iff_sq)

lemma demo_matrix:
  "intf_ll2ra_matrix demo_dat demo_extents [0, 8] [0, 6] [2] [2] = Inr [[1, 1, 0, 0]]"
  using demo_calc
  by (simp add: intf_ll2ra_matrix_def radar_chunks_def radar_chunk_def chunk_slice_def
      chunk_start_def)

lemma demo_wf: "wf_trans_dat demo_dat"
  by (simp add: wf_trans_dat_def rectangular_def ll_shape_def)

lemma demo_forward_values:
  "intf_ra2ll_values [0, 8] [0, 6] demo_rows [0, 1] = Inr [0, 0]"
  by (simp add: intf_ra2ll_values_def limit_8_6 intf2trans_def intf_yxs_def trans_yxs_def
      query_def dist_yx_def sqrt_less_iff_sq sqrt_le_iff_sq le_sqrt_iff_sq power2_eq_square
      np_gather_def np_take_def np_index_def
      del: less_divide_eq_numeral1 divide_less_eq_numeral1)

lemma demo_forward_matrix:
  "intf_ra2ll_matrix Map.empty ''F1_intf_ra2ll.grd'' [0, 8] [0, 6] demo_rows demo_trans_ra2ll
   = Inr [''F1_intf_ra2ll.grd'' \<mapsto>
            (demo_trans_ra2ll\<lparr>layers := [[0, 0]]\<rparr>, [(''node_offset'', 1)])]"
  using demo_forward_values
  by (simp add: intf_ra2ll_matrix_def intf_ra2ll_post_check_def np_max_def)

lemma calc_intf_ll2ra_matrix_unfold:
  assumes "length azi_c = length rng_c" and "azi_c \<noteq> []"
    and "gather_blocks td (candidate_blocks ext (Min (set azi_c)) (Max (set azi_c))
        (Min (set rng_c)) (Max (set rng_c))) = Inr (src, idxs)"
  shows "calc_intf_ll2ra_matrix td ext azi_c rng_c
     = np_gather idxs (map (\<lambda>q. int (snd (query src q None))) (zip azi_c rng_c))"
proof -
  from assms(1,2) have "rng_c \<noteq> []" by auto
  with assms show ?thesis
    by (simp add: calc_intf_ll2ra_matrix_def np_min_Inr np_max_Inr Let_def comp_def)
qed

subsection \<open>Coincident points\<close>

lemma dist_yx_nonneg: "0 \<le> dist_yx p q"
  by (simp add: dist_yx_def)

lemma dist_yx_zero_iff: "dist_yx p q = 0 \<longleftrightarrow> p = q"
  by (cases p, cases q) (auto simp: dist_yx_def)

lemma dist_yx_self: "dist_yx p p = 0"
  by (simp add: dist_yx_def)

lemma query_coincident:
  assumes "distinct data" and "k < length data" and "0 < u"
  shows "query data (data ! k) (Some u) = (Some 0, k)"
proof -
  let ?q = "data ! k"
  from assms(2) have "data \<noteq> []" by auto
  then obtain r where r: "nearest data ?q = Some r"
    by (cases "nearest data ?q") (auto simp: nearest_None)
  obtain d i where di: "r = (d, i)" by (cases r)
  from r di have n: "nearest data ?q = Some (d, i)" by simp
  from nearest_Some [OF n] have i: "i < length data" and d: "d = dist_yx (data ! i) ?q"
    and mn: "\<forall>j<length data. d \<le> dist_yx (data ! j) ?q" by auto
  from mn assms(2) have "d \<le> dist_yx ?q ?q" by blast
  then have "d \<le> 0" by (simp add: dist_yx_self)
  with d dist_yx_nonneg [of "data ! i" ?q] have d0: "d = 0" by simp
  with d have "data ! i = ?q" by (simp add: dist_yx_zero_iff)
  with assms(1,2) i have "i = k" by (simp add: nth_eq_iff_index_eq)
  with n d0 assms(3) show ?thesis by (simp add: query_def)
qed

lemma distinct_intf_yxs:
  assumes "distinct ys" and "distinct xs"
  shows "distinct (intf_yxs ys xs)"
  using assms(1)
proof (induction ys)
  case Nil
  then show ?case by (simp add: intf_yxs_def)
next
  case (Cons y ys)
  have "distinct (map (\<lambda>x. (y, x)) xs)"
    using assms(2) by (simp add: distinct_map inj_on_def)
  moreover have "set (map (\<lambda>x. (y, x)) xs) \<inter> set (intf_yxs ys xs) = {}"
    using Cons.prems by (auto simp: intf_yxs_def)
  ultimately show ?case using Cons by (simp add: intf_yxs_def)
qed

lemma distance_limit_pos:
  assumes "distance_limit ys xs = Inr limit"
  shows "0 < limit"
proof -
  from assms obtain s where l: "limit = sqrt s + 1 / 100" and s: "0 \<le> s"
    by (auto simp: distance_limit_def Let_def split: if_splits)
  from s have "0 \<le> sqrt s" by simp
  moreover have "(0::real) < 1 / 100" by simp
  ultimately have "0 < sqrt s + 1 / 100" by (rule add_nonneg_pos)
  with l show ?thesis by (simp only:)
qed

lemma distance_limit_total:
  "2 \<le> length ys \<Longrightarrow> 2 \<le> length xs \<Longrightarrow> \<exists>limit. distance_limit ys xs = Inr limit"
  by (simp add: distance_limit_def Let_def)

lemma coincident_values:
  assumes dy: "distinct ys" and dx: "distinct xs"
    and ly: "2 \<le> length ys" and lx: "2 \<le> length xs"
    and pts: "mset (trans_yxs trans_tab) = mset (intf_yxs ys xs)"
    and tr: "mset tr = mset (map int [0..<length ys * length xs])"
  shows "\<exists>m. intf_ra2ll_values ys xs trans_tab tr = Inr m
     \<and> mset m = mset (map int [0..<length ys * length xs])"
proof -
  let ?C = "intf_yxs ys xs"
  let ?n = "length ys * length xs"
  have n: "length ?C = ?n" by (rule length_intf_yxs)
  from distance_limit_total [OF ly lx] obtain limit where
    lim: "distance_limit ys xs = Inr limit" by blast
  then have pos: "0 < limit" by (rule distance_limit_pos)
  let ?g = "\<lambda>q. case query ?C q (Some limit) of (d, ind) \<Rightarrow> if d \<noteq> None then int ind else - 1"
  let ?I = "intf2trans ys xs limit trans_tab"
  have I: "?I = map ?g (trans_yxs trans_tab)" by (simp add: intf2trans_def)
  have "?g (?C ! k) = int k" if "k < ?n" for k
    using query_coincident [OF distinct_intf_yxs [OF dy dx], of k limit] that pos n by simp
  then have gC: "map ?g ?C = map int [0..<?n]"
    by (intro nth_equalityI) (simp_all add: n)
  have "mset ?I = image_mset ?g (mset (trans_yxs trans_tab))" by (simp only: I mset_map)
  also have "\<dots> = mset (map ?g ?C)" by (simp only: pts mset_map)
  also have "\<dots> = mset (map int [0..<?n])" by (simp only: gC)
  finally have mI: "mset ?I = mset (map int [0..<?n])" .
  then have lI: "length ?I = ?n" by (metis length_map length_upt mset_eq_length minus_nat.diff_0)
  from ly lx have "0 < length ys" "0 < length xs" by linarith+
  then have "0 < ?n" by simp
  with lI have ne: "trans_tab \<noteq> []" by (auto simp: intf2trans_def trans_yxs_def)
  from tr have "set tr = set (map int [0..<?n])" by (rule mset_eq_setD)
  then have rng: "\<forall>i \<in> set tr. 0 \<le> i \<and> i < int (length ?I)"
    unfolding lI by (auto simp del: of_nat_mult)
  let ?picked = "map (\<lambda>i. ?I ! nat i) tr"
  from rng have g: "np_gather ?I tr = Inr ?picked" by (rule np_gather_valid)
  have "map (\<lambda>(t, v). if 0 \<le> t then v else - 1) (zip tr ?picked) = ?picked"
    using rng by (intro mask_all_valid) auto
  with ne lim g have v: "intf_ra2ll_values ys xs trans_tab tr = Inr ?picked"
    by (simp add: intf_ra2ll_values_def)
  have l1: "map (\<lambda>i. ?I ! nat i) (map int [0..<?n]) = map (\<lambda>k. ?I ! k) [0..<?n]"
    by (intro nth_equalityI) simp_all
  have l2: "map (\<lambda>k. ?I ! k) [0..<?n] = ?I"
    using map_nth [of ?I] by (simp only: lI)
  have "mset ?picked = image_mset (\<lambda>i. ?I ! nat i) (mset tr)" by (simp only: mset_map)
  also have "\<dots> = mset (map (\<lambda>i. ?I ! nat i) (map int [0..<?n]))"
    by (simp only: tr mset_map)
  also have "\<dots> = mset ?I" by (simp only: l1 l2)
  finally have "mset ?picked = mset (map int [0..<?n])" using mI by (simp only:)
  with v show ?thesis by blast
qed

lemma dist_yx_commute: "dist_yx p q = dist_yx q p"
  by (simp add: dist_yx_def power2_commute)

lemma query_bounded_Some:
  assumes "query data q (Some u) = (Some d, i)"
  shows "i < length data \<and> d = dist_yx (data ! i) q \<and> d < u"
proof -
  from assms obtain d' i' where n: "nearest data q = Some (d', i')"
    by (cases "nearest data q") (auto simp: query_def)
  with assms have "d' < u" "d = d'" "i = i'"
    by (auto simp: query_def split: if_splits)
  with nearest_Some [OF n] show ?thesis by simp
qed

subsection \<open>Failures of the forward build\<close>








lemma length_intf2trans: "length (intf2trans ys xs limit trans_tab) = length trans_tab"
  by (simp add: intf2trans_def trans_yxs_def)




lemma coincident_intf2trans:
  assumes dy: "distinct ys" and dx: "distinct xs"
    and lim: "distance_limit ys xs = Inr limit"
    and t: "t < length trans_tab"
    and pt: "trans_yxs trans_tab ! t \<in> set (intf_yxs ys xs)"
  shows "0 \<le> intf2trans ys xs limit trans_tab ! t
     \<and> nat (intf2trans ys xs limit trans_tab ! t) < length (intf_yxs ys xs)
     \<and> intf_yxs ys xs ! nat (intf2trans ys xs limit trans_tab ! t) = trans_yxs trans_tab ! t"
proof -
  let ?C = "intf_yxs ys xs"
  from pt obtain k where k: "k < length ?C" and q: "?C ! k = trans_yxs trans_tab ! t"
    by (auto simp: in_set_conv_nth)
  from lim have pos: "0 < limit" by (rule distance_limit_pos)
  from query_coincident [OF distinct_intf_yxs [OF dy dx] k pos] q
  have "query ?C (trans_yxs trans_tab ! t) (Some limit) = (Some 0, k)" by simp
  moreover from t have "t < length (trans_yxs trans_tab)" by (simp add: trans_yxs_def)
  ultimately have "intf2trans ys xs limit trans_tab ! t = int k"
    by (simp add: intf2trans_def)
  with k q show ?thesis by simp
qed

lemma valid_values:
  assumes ne: "trans_tab \<noteq> []" and lim: "distance_limit ys xs = Inr limit"
    and rng: "\<forall>i \<in> set tr. 0 \<le> i \<and> i < int (length trans_tab)"
  shows "intf_ra2ll_values ys xs trans_tab tr
     = Inr (map (\<lambda>i. intf2trans ys xs limit trans_tab ! nat i) tr)"
proof -
  let ?I = "intf2trans ys xs limit trans_tab"
  let ?picked = "map (\<lambda>i. ?I ! nat i) tr"
  from rng have "\<forall>i \<in> set tr. 0 \<le> i \<and> i < int (length ?I)"
    by (simp add: length_intf2trans)
  then have g: "np_gather ?I tr = Inr ?picked" by (rule np_gather_valid)
  have "map (\<lambda>(t, v). if 0 \<le> t then v else - 1) (zip tr ?picked) = ?picked"
    using rng by (intro mask_all_valid) auto
  with ne lim g show ?thesis by (simp add: intf_ra2ll_values_def)
qed

lemma limit_4x4: "\<exists>limit. distance_limit [0, 1, 2, 3] [0, 1, 2, 3] = Inr limit"
  by (simp add: distance_limit_def Let_def)

subsection \<open>Evaluation on the table of one column\<close>

lemma column_shape: "ll_shape (column_table n) = (Suc n, 1)"
  by (simp add: ll_shape_def column_table_def upt_conv_Cons del: upt_Suc)

lemma column_size: "ll_size (column_table n) = Suc n"
  by (simp add: ll_size_def column_shape)

lemma last_chunk: "chunk_slice [n, Suc 0] (Suc 0) (map g [0..<Suc n]) = [g n]"
  by (simp add: chunk_slice_def chunk_start_def drop_map)

lemma last_block:
  "blocks [n, Suc 0] [Suc 0] (map (\<lambda>i. [g i]) [0..<Suc n]) 1 0 = Inr [[g n]]"
proof -
  have "chunk_slice [Suc 0] 0 [v] = [v]" for v :: 'a
    by (simp add: chunk_slice_def chunk_start_def)
  then show ?thesis
    by (simp add: blocks_def np_index_def last_chunk del: upt_Suc)
qed

lemma column_idx: "trans_idx (column_table n) = map (\<lambda>i. [of_nat i]) [0..<Suc n]"
proof -
  have s: "snd (ll_shape (column_table n)) = 1" "fst (ll_shape (column_table n)) = Suc n"
    by (simp_all add: column_shape)
  have u: "[0..<(1::nat)] = [0]" by simp
  show ?thesis unfolding trans_idx_def s u by simp
qed

lemma column_gather_block:
  "gather_block (column_table n)
      \<lparr>e_iy = 1, e_ix = 0, e_ymin = real n, e_ymax = real n, e_xmin = 0, e_xmax = 0\<rparr>
   = Inr ([real n], [0], [of_nat n])"
proof -
  have a: "azi (column_table n) = map (\<lambda>i. [real i]) [0..<Suc n]"
    and r: "rng (column_table n) = map (\<lambda>i. [0]) [0..<Suc n]"
    and c: "lat_chunks (column_table n) = [n, 1]" "lon_chunks (column_table n) = [1]"
      "idx_lat_chunks (column_table n) = [n, 1]" "idx_lon_chunks (column_table n) = [1]"
    by (simp_all add: column_table_def del: upt_Suc)
  have i: "astype_int 1 = 1" "astype_int 0 = 0" by (simp_all add: astype_int_def)
  show ?thesis
    unfolding gather_block_def a r c column_idx
    by (simp add: i last_block del: upt_Suc)
qed

lemma column_calc:
  "calc_intf_ll2ra_matrix (column_table n) (column_extents n) [real n + 1] [0] = Inr [of_nat n]"
proof -
  have c: "candidate_blocks (column_extents n) (real n + 1) (real n + 1) 0 0
      = [\<lparr>e_iy = 1, e_ix = 0, e_ymin = real n, e_ymax = real n, e_xmin = 0, e_xmax = 0\<rparr>]"
    by (simp add: candidate_blocks_def column_extents_def)
  have g: "gather_blocks (column_table n)
      [\<lparr>e_iy = 1, e_ix = 0, e_ymin = real n, e_ymax = real n, e_xmin = 0, e_xmax = 0\<rparr>]
      = Inr ([(real n, 0)], [of_nat n])"
    by (simp add: gather_blocks_def column_gather_block)
  show ?thesis
    by (simp add: calc_intf_ll2ra_matrix_def np_min_def np_max_def c g query_def
        np_gather_def np_take_def np_index_def)
qed

lemma column_matrix:
  "intf_ll2ra_matrix (column_table n) (column_extents n) [real n + 1] [0] [1] [1]
     = Inr [[of_nat n]]"
  using column_calc [of n]
  by (simp add: intf_ll2ra_matrix_def radar_chunks_def radar_chunk_def chunk_slice_def
      chunk_start_def)

subsection \<open>Evaluation on the table with finer labels\<close>

lemma tall_candidates:
  "candidate_blocks tall_extents 8 8 0 6
     = [\<lparr>e_iy = 1, e_ix = 0, e_ymin = 8, e_ymax = 8, e_xmin = 0, e_xmax = 0\<rparr>]"
  by (simp add: candidate_blocks_def)

lemma tall_gather:
  "gather_blocks tall_dat
      [\<lparr>e_iy = 1, e_ix = 0, e_ymin = 8, e_ymax = 8, e_xmin = 0, e_xmax = 0\<rparr>]
     = Inr ([(8, 0)], [1])"
  by (simp add: gather_blocks_def gather_block_def blocks_def np_index_def astype_int_def
      chunk_slice_def chunk_start_def trans_idx_def ll_shape_def)

subsection \<open>Gathered points and their labels\<close>

lemma rectangular_nth:
  assumes "rectangular n m arr"
  shows "map (\<lambda>i. map (\<lambda>j. arr ! i ! j) [0..<m]) [0..<n] = arr"
proof (rule nth_equalityI)
  show "length (map (\<lambda>i. map (\<lambda>j. arr ! i ! j) [0..<m]) [0..<n]) = length arr"
    using assms by (simp add: rectangular_def)
next
  fix i assume "i < length (map (\<lambda>i. map (\<lambda>j. arr ! i ! j) [0..<m]) [0..<n])"
  then have i: "i < n" by simp
  with assms have "length (arr ! i) = m" by (simp add: rectangular_def list_all_iff)
  then have "map (\<lambda>j. arr ! i ! j) [0..<m] = arr ! i" using map_nth [of "arr ! i"] by simp
  with i show "map (\<lambda>i. map (\<lambda>j. arr ! i ! j) [0..<m]) [0..<n] ! i = arr ! i" by simp
qed

lemma cells_azi: "wf_trans_dat td \<Longrightarrow> map (map fst) (cells td) = azi td"
  using rectangular_nth [of "fst (ll_shape td)" "snd (ll_shape td)" "azi td"]
  by (simp add: cells_def wf_trans_dat_def comp_def)

lemma cells_rng: "wf_trans_dat td \<Longrightarrow> map (map (fst \<circ> snd)) (cells td) = rng td"
  using rectangular_nth [of "fst (ll_shape td)" "snd (ll_shape td)" "rng td"]
  by (simp add: cells_def wf_trans_dat_def comp_def)

lemma cells_idx: "map (map (snd \<circ> snd)) (cells td) = trans_idx td"
  by (simp add: cells_def trans_idx_def comp_def)

lemma chunk_slice_map: "chunk_slice cs i (map f xs) = map f (chunk_slice cs i xs)"
  by (simp add: chunk_slice_def take_map drop_map)

lemma blocks_map:
  "blocks rc cc (map (map f) arr) iy ix
     = (case blocks rc cc arr iy ix of Inl e \<Rightarrow> Inl e | Inr b \<Rightarrow> Inr (map (map f) b))"
  by (simp add: blocks_def chunk_slice_map comp_def split: sum.splits)

lemma in_cells:
  assumes "x \<in> set (concat (cells td))"
  shows "\<exists>row col. row < fst (ll_shape td) \<and> col < snd (ll_shape td)
     \<and> x = (azi td ! row ! col, rng td ! row ! col, of_nat (row * snd (ll_shape td) + col))"
proof -
  from assms obtain i j where "i < fst (ll_shape td)" "j < snd (ll_shape td)"
    "x = (azi td ! i ! j, rng td ! i ! j, of_nat (i * snd (ll_shape td) + j))"
    unfolding cells_def by (auto simp del: of_nat_add of_nat_mult)
  then show ?thesis by blast
qed

lemma gather_block_cells:
  assumes wf: "wf_trans_dat td" and al: "aligned_labels td"
    and g: "gather_block td e = Inr (a, r, ix)"
  shows "\<exists>X. a = map fst X \<and> r = map (fst \<circ> snd) X \<and> ix = map (snd \<circ> snd) X
     \<and> set X \<subseteq> set (concat (cells td))"
proof -
  let ?iy = "astype_int (e_iy e)" and ?ix = "astype_int (e_ix e)"
  let ?b = "blocks (lat_chunks td) (lon_chunks td)"
  from g obtain ba br bi where
    ba: "?b (azi td) ?iy ?ix = Inr ba" and br: "?b (rng td) ?iy ?ix = Inr br"
    and bi: "blocks (idx_lat_chunks td) (idx_lon_chunks td) (trans_idx td) ?iy ?ix = Inr bi"
    and eq: "a = concat ba" "r = concat br" "ix = concat bi"
    by (rule gather_block_Inr)
  from al bi have bi': "?b (trans_idx td) ?iy ?ix = Inr bi" by (simp add: aligned_labels_def)
  from ba have "?b (map (map fst) (cells td)) ?iy ?ix = Inr ba" by (simp add: cells_azi [OF wf])
  then obtain bc where bc: "?b (cells td) ?iy ?ix = Inr bc" and 1: "ba = map (map fst) bc"
    by (auto simp: blocks_map split: sum.splits)
  from br have "?b (map (map (fst \<circ> snd)) (cells td)) ?iy ?ix = Inr br"
    by (simp add: cells_rng [OF wf])
  with bc have 2: "br = map (map (fst \<circ> snd)) bc" by (simp add: blocks_map)
  from bi' have "?b (map (map (snd \<circ> snd)) (cells td)) ?iy ?ix = Inr bi"
    by (simp add: cells_idx)
  with bc have 3: "bi = map (map (snd \<circ> snd)) bc" by (simp add: blocks_map)
  from blocks_set [OF bc] have "set (concat bc) \<subseteq> set (concat (cells td))" .
  with eq 1 2 3 show ?thesis
    by (intro exI [of _ "concat bc"]) (simp add: map_concat)
qed

lemma parts_cells:
  assumes "\<forall>part \<in> set parts. \<exists>X. fst part = map fst X \<and> fst (snd part) = map (fst \<circ> snd) X
      \<and> snd (snd part) = map (snd \<circ> snd) X \<and> set X \<subseteq> S"
  shows "\<exists>X. concat (map fst parts) = map fst X
     \<and> concat (map (fst \<circ> snd) parts) = map (fst \<circ> snd) X
     \<and> concat (map (snd \<circ> snd) parts) = map (snd \<circ> snd) X \<and> set X \<subseteq> S"
  using assms
proof (induction parts)
  case Nil
  show ?case by (intro exI [of _ "[]"]) simp
next
  case (Cons p ps)
  from Cons.prems have "\<exists>X. fst p = map fst X \<and> fst (snd p) = map (fst \<circ> snd) X
      \<and> snd (snd p) = map (snd \<circ> snd) X \<and> set X \<subseteq> S"
    by (meson list.set_intros(1))
  then obtain X where X: "fst p = map fst X" "fst (snd p) = map (fst \<circ> snd) X"
    "snd (snd p) = map (snd \<circ> snd) X" "set X \<subseteq> S" by blast
  from Cons.prems have "\<forall>part \<in> set ps. \<exists>X. fst part = map fst X
      \<and> fst (snd part) = map (fst \<circ> snd) X
      \<and> snd (snd part) = map (snd \<circ> snd) X \<and> set X \<subseteq> S"
    by (meson list.set_intros(2))
  from Cons.IH [OF this] obtain Y where Y: "concat (map fst ps) = map fst Y"
    "concat (map (fst \<circ> snd) ps) = map (fst \<circ> snd) Y"
    "concat (map (snd \<circ> snd) ps) = map (snd \<circ> snd) Y" "set Y \<subseteq> S" by blast
  from X Y show ?case by (intro exI [of _ "X @ Y"]) (simp add: comp_def)
qed

lemma gather_blocks_cells:
  assumes wf: "wf_trans_dat td" and al: "aligned_labels td"
    and g: "gather_blocks td bs = Inr (src, idxs)"
  shows "\<exists>X. src = map (\<lambda>x. (fst x, fst (snd x))) X \<and> idxs = map (snd \<circ> snd) X
     \<and> set X \<subseteq> set (concat (cells td))"
proof -
  from g obtain parts where c: "collect (map (gather_block td) bs) = Inr parts"
    and src: "src = zip (concat (map fst parts)) (concat (map (fst \<circ> snd) parts))"
    and idxs: "idxs = concat (map (snd \<circ> snd) parts)"
    by (rule gather_blocks_Inr)
  have "\<forall>part \<in> set parts. \<exists>X. fst part = map fst X \<and> fst (snd part) = map (fst \<circ> snd) X
      \<and> snd (snd part) = map (snd \<circ> snd) X \<and> set X \<subseteq> set (concat (cells td))"
  proof
    fix part assume "part \<in> set parts"
    from collect_map_set [OF c this] obtain e where "gather_block td e = Inr part" by auto
    then have "gather_block td e = Inr (fst part, fst (snd part), snd (snd part))" by simp
    from gather_block_cells [OF wf al this]
    show "\<exists>X. fst part = map fst X \<and> fst (snd part) = map (fst \<circ> snd) X
      \<and> snd (snd part) = map (snd \<circ> snd) X \<and> set X \<subseteq> set (concat (cells td))" .
  qed
  from parts_cells [OF this] obtain X where
    a: "concat (map fst parts) = map fst X"
    and r: "concat (map (fst \<circ> snd) parts) = map (fst \<circ> snd) X"
    and ix: "concat (map (snd \<circ> snd) parts) = map (snd \<circ> snd) X"
    and sub: "set X \<subseteq> set (concat (cells td))" by blast
  have "src = map (\<lambda>x. (fst x, fst (snd x))) X"
    unfolding src a r by (simp add: zip_map_map zip_same_conv_map)
  with idxs ix sub show ?thesis by auto
qed

lemma gathered_label:
  assumes wf: "wf_trans_dat td" and al: "aligned_labels td"
    and g: "gather_blocks td bs = Inr (src, idxs)" and k: "k < length src"
  shows "k < length idxs \<and> (\<exists>row col. row < fst (ll_shape td) \<and> col < snd (ll_shape td)
     \<and> src ! k = (azi td ! row ! col, rng td ! row ! col)
     \<and> idxs ! k = of_nat (row * snd (ll_shape td) + col))"
proof -
  from gather_blocks_cells [OF wf al g] obtain X where
    src: "src = map (\<lambda>x. (fst x, fst (snd x))) X" and idxs: "idxs = map (snd \<circ> snd) X"
    and sub: "set X \<subseteq> set (concat (cells td))" by blast
  from k src have kX: "k < length X" by simp
  then have "X ! k \<in> set (concat (cells td))" using sub nth_mem [of k X] by blast
  from in_cells [OF this] obtain row col where
    "row < fst (ll_shape td)" "col < snd (ll_shape td)"
    "X ! k = (azi td ! row ! col, rng td ! row ! col, of_nat (row * snd (ll_shape td) + col))"
    by blast
  with kX src idxs show ?thesis by auto
qed

subsection \<open>Evaluation on the table with a block out of reach\<close>

lemma demo_aligned: "aligned_labels demo_dat"
  by (simp add: aligned_labels_def)

lemma split_forward_values:
  "intf_ra2ll_values [0, 8] [0, 6] split_rows [0, 1] = Inr [0, 3]"
  by (simp add: intf_ra2ll_values_def limit_8_6 intf2trans_def intf_yxs_def trans_yxs_def
      query_def dist_yx_def sqrt_less_iff_sq sqrt_le_iff_sq le_sqrt_iff_sq power2_eq_square
      np_gather_def np_take_def np_index_def
      del: less_divide_eq_numeral1 divide_less_eq_numeral1)

lemma split_gather:
  "gather_blocks split_dat
     [\<lparr>e_iy = 1, e_ix = 0, e_ymin = 8, e_ymax = 8, e_xmin = 6, e_xmax = 6\<rparr>]
   = Inr ([(8, 6)], [1])"
  by (simp add: gather_blocks_def gather_block_def blocks_def np_index_def astype_int_def
      chunk_slice_def chunk_start_def trans_idx_def ll_shape_def)

lemma split_calc:
  "calc_intf_ll2ra_matrix split_dat split_extents [0, 0, 8, 8] [0, 6, 0, 6] = Inr [1, 1, 1, 1]"
  using split_gather
  by (simp add: calc_intf_ll2ra_matrix_def np_min_def np_max_def candidate_blocks_def
      query_def dist_yx_def np_gather_def np_take_def np_index_def)

lemma split_matrix:
  "intf_ll2ra_matrix split_dat split_extents [0, 8] [0, 6] [2] [2] = Inr [[1, 1, 1, 1]]"
  using split_calc
  by (simp add: intf_ll2ra_matrix_def radar_chunks_def radar_chunk_def chunk_slice_def
      chunk_start_def)

lemma split_wf: "wf_trans_dat split_dat"
  by (simp add: wf_trans_dat_def rectangular_def ll_shape_def)

lemma split_candidates:
  "candidate_blocks split_extents 0 8 0 6
   = [\<lparr>e_iy = 1, e_ix = 0, e_ymin = 8, e_ymax = 8, e_xmin = 6, e_xmax = 6\<rparr>]"
  by (simp add: candidate_blocks_def)

lemma intf_ll2ra_matrix_chunk:
  assumes "intf_ll2ra_matrix td ext ys xs y_chunks x_chunks = Inr Ms"
    and "b < length (radar_chunks ys xs y_chunks x_chunks)"
    and "radar_chunks ys xs y_chunks x_chunks ! b = (azi_c, rng_c)"
  shows "calc_intf_ll2ra_matrix td ext azi_c rng_c = Inr (Ms ! b)"
  using collect_Inr [OF assms(1) [unfolded intf_ll2ra_matrix_def]] assms(2,3)
  by (auto simp: case_prod_beta)

lemma demo_chunks:
  "radar_chunks [0, 8] [0, 6] [2] [2] = [([0, 0, 8, 8], [0, 6, 0, 6])]"
  by (simp add: radar_chunks_def radar_chunk_def chunk_slice_def chunk_start_def)

section \<open>Properties\<close>

subsection \<open>The resamplers' helper checks and masking\<close>

text \<open>
  Claim C3 (forward-resampler dynamic masking): a matrix entry that is not smaller than
  the layer's flattened size is replaced by -1 before the gather, and a cell whose entry
  is -1 after the replacement is meant to come out as not-a-number. On the code the
  second half fails: the mask of \<open>np.where\<close> is taken from the matrix before the
  replacement, so such a cell keeps what index -1 reads, the last value of the layer.
  Here a layer of two cells meets the entry 5: the second output cell is 20, the
  layer's last value, and not not-a-number.
\<close>

theorem ra2ll_oversized_entry_reads_last_value:
  "ra2ll [0, 5]
     \<lparr>dims = [''y'', ''x''], coord0 = [0], coord1 = [0, 1], layers = [[0, 1 :: 32 word]]\<rparr>
     ''y'' ''x'' [0] [0, 1] [Val 10, Val 20]
   = Inr [Val 10, Val 20]"
  by (simp add: ra2ll_def reindex_like_def reindex_axis_def coord_of_def axis0_def axis1_def
      np_gather_def np_take_def np_index_def)

text \<open>
  Claim C4 (forward no-op passthrough): a raster with neither a \<open>y\<close> nor an \<open>x\<close>
  dimension is meant to be returned unchanged after a notice. On the code the helper
  check is false for such a raster (its second operand asks for an \<open>x\<close> dimension), so
  the raster is geocoded: a raster on \<open>lat\<close> and \<open>lon\<close> with the values 1 and 2 comes
  back as not-a-number and 1, and nothing is printed.
\<close>

theorem intf_ra2ll_geographic_input_is_geocoded:
  "intf_ra2ll
     \<lparr>dims = [''lat'', ''lon''], coord0 = [0], coord1 = [0, 1], layers = [[- 1, 0]]\<rparr>
     \<lparr>dims = [''y'', ''x''], coord0 = [0], coord1 = [0, 1], layers = [[0, 1 :: 32 word]]\<rparr>
     \<lparr>dims = [''lat'', ''lon''], coord0 = [0], coord1 = [0, 1], layers = [[Val 1, Val 2]]\<rparr>
   = Inr (\<lparr>dims = [''lat'', ''lon''], coord0 = [0], coord1 = [0, 1],
           layers = [[NaN, Val 1]]\<rparr>, [])"
  by (simp add: intf_ra2ll_def ra2ll_def reindex_like_def reindex_axis_def coord_of_def
      axis0_def axis1_def np_gather_def np_take_def np_index_def)

text \<open>
  Claim C9 (inverse no-op passthrough): a raster without the \<open>lat\<close> and \<open>lon\<close>
  dimensions is meant to be returned unchanged after a notice. On the code the helper
  check of \<open>intf_ll2ra\<close> reads the unbound name \<open>grid\<close> as soon as \<open>lat\<close> is missing:
  a raster on \<open>y\<close> and \<open>x\<close> raises NameError.
\<close>

theorem intf_ll2ra_radar_input_raises:
  "intf_ll2ra (\<lambda>g. g) [1]
     \<lparr>dims = [''y'', ''x''], coord0 = [0], coord1 = [0, 1], layers = [[0, 1]]\<rparr>
     \<lparr>dims = [''y'', ''x''], coord0 = [0], coord1 = [0, 1], layers = [[Val 1, Val 2]]\<rparr>
   = Inl NameError"
  by (simp add: intf_ll2ra_def)

subsection \<open>The forward matrix builder\<close>

text \<open>
  Claim C5 (out-of-tolerance sentinel): a translation-table point that is farther than
  the tolerance (half the diagonal of one radar cell plus 1e-2) from every radar cell
  center is assigned -1 by \<open>intf_ra2ll_matrix\<close>, not the index of its nearest cell; so
  is every cell of the forward matrix that refers to that point.
\<close>

theorem intf_ra2ll_matrix_out_of_tolerance:
  assumes "intf_ra2ll_values ys xs trans_tab trans_ra2ll = Inr m"
    and "distance_limit ys xs = Inr limit"
    and "t < length trans_tab"
    and "\<forall>p \<in> set (intf_yxs ys xs). limit < dist_yx p (trans_yxs trans_tab ! t)"
  shows "intf2trans ys xs limit trans_tab ! t = - 1
     \<and> (\<forall>c<length trans_ra2ll. trans_ra2ll ! c = int t \<longrightarrow> m ! c = - 1)"
proof -
  let ?I = "intf2trans ys xs limit trans_tab"
  have len: "length ?I = length trans_tab"
    by (simp add: intf2trans_def trans_yxs_def)
  have "fst (query (intf_yxs ys xs) (trans_yxs trans_tab ! t) (Some limit)) = None"
    using assms(4) by (rule query_bounded_far)
  moreover have "t < length (trans_yxs trans_tab)"
    using assms(3) by (simp add: trans_yxs_def)
  ultimately have I: "?I ! t = - 1"
    by (cases "query (intf_yxs ys xs) (trans_yxs trans_tab ! t) (Some limit)")
      (simp add: intf2trans_def)
  from assms(1,2) obtain picked where
    g: "np_gather ?I trans_ra2ll = Inr picked" and
    m: "m = map (\<lambda>(t, v). if t \<ge> 0 then v else - 1) (zip trans_ra2ll picked)"
    by (auto elim!: intf_ra2ll_values_Inr)
  have "m ! c = - 1" if c: "c < length trans_ra2ll" and tc: "trans_ra2ll ! c = int t" for c
  proof -
    from np_gather_Inr [OF g] c have lp: "length picked = length trans_ra2ll"
      and "np_take ?I (trans_ra2ll ! c) = Inr (picked ! c)" by auto
    with tc have "picked ! c = ?I ! t"
      using np_take_nonneg [of ?I "int t" "picked ! c"] by simp
    with I m c lp tc show ?thesis by simp
  qed
  with I show ?thesis by blast
qed

theorem intf_ra2ll_matrix_out_of_tolerance_witness:
  "intf_ra2ll_values [0, 8] [0, 6]
      [\<lparr>col_r = 100, col_a = 0, col_topo = 0, col_lon = 0, col_lat = 0\<rparr>] [0] = Inr [- 1]
   \<and> distance_limit [0, 8] [0, 6] = Inr (5 + 1 / 100)
   \<and> list_all (\<lambda>p. 5 + 1 / 100
         < dist_yx p (trans_yxs [\<lparr>col_r = 100, col_a = 0, col_topo = 0, col_lon = 0, col_lat = 0\<rparr>] ! 0))
        (intf_yxs [0, 8] [0, 6])
   \<and> intf2trans [0, 8] [0, 6] (5 + 1 / 100)
        [\<lparr>col_r = 100, col_a = 0, col_topo = 0, col_lon = 0, col_lat = 0\<rparr>] ! 0 = - 1"
proof -
  let ?tab = "[\<lparr>col_r = 100, col_a = 0, col_topo = 0, col_lon = 0, col_lat = 0\<rparr>]"
  have far: "\<forall>p \<in> set (intf_yxs [0, 8] [0, 6]). 5 + 1 / 100 < dist_yx p (trans_yxs ?tab ! 0)"
    by (simp add: intf_yxs_def trans_yxs_def dist_yx_def less_sqrt_iff_sq power2_eq_square
        del: less_divide_eq_numeral1 divide_less_eq_numeral1)
  have v: "intf_ra2ll_values [0, 8] [0, 6] ?tab [0] = Inr [- 1]"
    by (simp add: intf_ra2ll_values_def limit_8_6 intf2trans_def intf_yxs_def trans_yxs_def
        query_def dist_yx_def sqrt_less_iff_sq power2_eq_square np_gather_def np_take_def
        np_index_def del: less_divide_eq_numeral1 divide_less_eq_numeral1)
  from intf_ra2ll_matrix_out_of_tolerance [OF v limit_8_6 _ far] far v limit_8_6
  show ?thesis by (simp add: list_all_iff)
qed

subsection \<open>Sentinels and valid indices\<close>

text \<open>
  Claim C2 (sentinel consistency): every cell of the forward matrix written by
  \<open>intf_ra2ll_matrix\<close> is -1 or an index below the cell count of the interferogram
  grid, and every cell of a matrix built by \<open>intf_ll2ra_matrix\<close> is the largest
  unsigned 32-bit value or an index below the cell count of the translation table's
  grid; no other value occurs.
\<close>

theorem built_matrices_sentinel_consistency:
  "(intf_ra2ll_matrix files f ys xs trans_tab trans_ra2ll = Inr files' \<longrightarrow>
      (\<exists>m. files' f = Some (trans_ra2ll\<lparr>layers := [m]\<rparr>, [(''node_offset'', 1)])
         \<and> (\<forall>v \<in> set m. v = - 1 \<or> (0 \<le> v \<and> v < int (length ys * length xs)))))
   \<and> (intf_ll2ra_matrix td ext ys xs y_chunks x_chunks = Inr M \<longrightarrow>
        (\<forall>blk \<in> set M. \<forall>w \<in> set blk. w = - 1 \<or> unat w < ll_size td))"
proof (intro conjI impI)
  assume "intf_ra2ll_matrix files f ys xs trans_tab trans_ra2ll = Inr files'"
  then obtain m where
    m: "intf_ra2ll_values ys xs trans_tab (concat (layers trans_ra2ll)) = Inr m" and
    f: "files' = files(f \<mapsto> (trans_ra2ll\<lparr>layers := [m]\<rparr>, [(''node_offset'', 1)]))"
    by (rule intf_ra2ll_matrix_Inr)
  from intf_ra2ll_values_range [OF m]
  have "\<forall>v \<in> set m. v = - 1 \<or> (0 \<le> v \<and> v < int (length ys * length xs))" by blast
  with f show "\<exists>m. files' f = Some (trans_ra2ll\<lparr>layers := [m]\<rparr>, [(''node_offset'', 1)])
         \<and> (\<forall>v \<in> set m. v = - 1 \<or> (0 \<le> v \<and> v < int (length ys * length xs)))"
    by auto
next
  assume M: "intf_ll2ra_matrix td ext ys xs y_chunks x_chunks = Inr M"
  show "\<forall>blk \<in> set M. \<forall>w \<in> set blk. w = - 1 \<or> unat w < ll_size td"
  proof (intro ballI)
    fix blk w assume "blk \<in> set M" "w \<in> set blk"
    with intf_ll2ra_matrix_labels [OF M] obtain k where "k < ll_size td" "w = of_nat k"
      by blast
    with unat_label_le [of k] show "w = - 1 \<or> unat w < ll_size td" by simp
  qed
qed

theorem built_matrices_sentinel_consistency_witness:
  "intf_ra2ll_matrix Map.empty ''F1_intf_ra2ll.grd'' [0, 8] [0, 6] demo_rows demo_trans_ra2ll
     = Inr [''F1_intf_ra2ll.grd'' \<mapsto>
              (demo_trans_ra2ll\<lparr>layers := [[0, 0]]\<rparr>, [(''node_offset'', 1)])]
   \<and> list_all (\<lambda>v. v = - 1 \<or> (0 \<le> v \<and> v < int (length [0 :: real, 8] * length [0 :: real, 6])))
        [0, 0 :: int]
   \<and> intf_ll2ra_matrix demo_dat demo_extents [0, 8] [0, 6] [2] [2] = Inr [[1, 1, 0, 0]]
   \<and> list_all (list_all (\<lambda>w. w = - 1 \<or> unat w < ll_size demo_dat)) [[1, 1, 0, 0 :: 32 word]]"
  using built_matrices_sentinel_consistency [of Map.empty "''F1_intf_ra2ll.grd''" "[0, 8]" "[0, 6]"
      demo_rows demo_trans_ra2ll
      "[''F1_intf_ra2ll.grd'' \<mapsto> (demo_trans_ra2ll\<lparr>layers := [[0, 0]]\<rparr>, [(''node_offset'', 1)])]"
      demo_dat demo_extents "[2]" "[2]" "[[1, 1, 0, 0]]"]
    demo_forward_matrix demo_matrix
  by (simp add: list_all_iff)

text \<open>
  Claim C10 (the inverse matrix holds no sentinel), as amended: for a translation table
  of fewer than 2^32 cells, every cell of a matrix built by
  \<open>intf_ll2ra_matrix\<close> is a valid index into the table and differs from the largest
  unsigned 32-bit value; hence \<open>ll2ra\<close> on such a matrix is the plain gather, its
  not-a-number branch never being taken.
\<close>

theorem intf_ll2ra_matrix_never_sentinel:
  assumes "intf_ll2ra_matrix td ext ys xs y_chunks x_chunks = Inr M"
    and "ll_size td < 2 ^ 32"
    and "set m \<subseteq> \<Union> (set ` set M)"
  shows "(\<forall>blk \<in> set M. \<forall>w \<in> set blk. w \<noteq> - 1 \<and> unat w < ll_size td)
     \<and> ll2ra m grid = np_gather grid (map uint m)"
proof -
  have valid: "w \<noteq> - 1 \<and> unat w < ll_size td" if "blk \<in> set M" "w \<in> set blk" for blk w
  proof -
    from intf_ll2ra_matrix_labels [OF assms(1) that] obtain k where
      k: "k < ll_size td" "w = of_nat k" by blast
    with assms(2) have "k < 2 ^ 32 - 1" by simp
    then have "(of_nat k :: 32 word) \<noteq> - 1" by (rule label_not_sentinel)
    with k unat_label_le [of k] show ?thesis by simp
  qed
  with assms(3) have ok: "\<forall>a \<in> set m. a \<noteq> - 1" by blast
  have "ll2ra m grid = np_gather grid (map uint m)"
  proof (cases "np_gather grid (map uint m)")
    case (Inl e)
    then show ?thesis by (simp add: ll2ra_def)
  next
    case (Inr g)
    from np_gather_Inr(1) [OF Inr] have "length g = length m" by simp
    from mask_all_valid [OF this ok, of NaN] Inr show ?thesis by (simp add: ll2ra_def)
  qed
  with valid show ?thesis by blast
qed

theorem intf_ll2ra_matrix_never_sentinel_witness:
  "intf_ll2ra_matrix demo_dat demo_extents [0, 8] [0, 6] [2] [2] = Inr [[1, 1, 0, 0]]
   \<and> ll_size demo_dat < 2 ^ 32
   \<and> set [1, 1, 0, 0 :: 32 word] \<subseteq> \<Union> (set ` set [[1, 1, 0, 0]])
   \<and> list_all (list_all (\<lambda>w. w \<noteq> - 1 \<and> unat w < ll_size demo_dat)) [[1, 1, 0, 0 :: 32 word]]
   \<and> ll2ra [1, 1, 0, 0] [Val 7, Val 9] = Inr [Val 9, Val 9, Val 7, Val 7]"
proof -
  have s: "ll_size demo_dat < 2 ^ 32" by (simp add: ll_size_def ll_shape_def)
  have i: "set [1, 1, 0, 0 :: 32 word] \<subseteq> \<Union> (set ` set [[1, 1, 0, 0]])" by simp
  have g: "np_gather [Val 7, Val 9] (map uint [1, 1, 0, 0 :: 32 word])
      = Inr [Val 9, Val 9, Val 7, Val 7]"
    by (simp add: np_gather_def np_take_def np_index_def)
  from intf_ll2ra_matrix_never_sentinel [OF demo_matrix s i, of "[Val 7, Val 9]"] demo_matrix s i g
  show ?thesis by (simp add: list_all_iff)
qed

text \<open>
  The claim as worded, for every translation table, fails at the first size the labels
  cannot tell from the sentinel: on the table of one column and 2^32 rows the radar cell
  next to the last row is given the label 2^32 - 1, which is the largest unsigned 32-bit
  value, and \<open>ll2ra\<close> turns that cell into not-a-number.
\<close>

theorem intf_ll2ra_matrix_sentinel_counterexample:
  "ll_size (column_table 4294967295) = 4294967296
   \<and> intf_ll2ra_matrix (column_table 4294967295) (column_extents 4294967295)
        [4294967296] [0] [1] [1] = Inr [[- 1]]
   \<and> ll2ra [- 1] (replicate 4294967296 (Val 1)) = Inr [NaN]"
proof -
  have "ll_size (column_table 4294967295) = 4294967296"
    by (simp add: column_size)
  moreover
  have "real 4294967295 + 1 = 4294967296" by simp
  with column_matrix [of 4294967295]
  have "intf_ll2ra_matrix (column_table 4294967295) (column_extents 4294967295)
        [4294967296] [0] [1] [1] = Inr [[of_nat 4294967295]]" by (simp only:)
  moreover have "(of_nat 4294967295 :: 32 word) = - 1" by simp
  moreover have "ll2ra [- 1] (replicate 4294967296 (Val 1)) = Inr [NaN]"
    by (simp add: ll2ra_def np_gather_def np_take_def np_index_def
        unsigned_minus_1_eq_mask mask_eq_exp_minus_1)
  ultimately show ?thesis by (simp only:)
qed

subsection \<open>The post-check of the forward build\<close>




subsection \<open>The coincident 4 by 4 grid\<close>

text \<open>
  Claim C6 (coincident-grid bijection), as amended: on the radar grid with cell centers
  at the integer positions of \<open>[0,3] \<times> [0,3]\<close>, with a translation table of 16 points
  that are, one for one, the 16 cell centers (in any order), and a full-area matrix
  whose 16 cells refer, one for one, to the 16 points (in any order),
  \<open>intf_ra2ll_matrix\<close> completes and writes a forward matrix of 16 cells in which every
  cell holds the index of the radar cell that its translation point coincides with; the
  matrix therefore holds each of the integers 0 to 15 exactly once and no -1.
\<close>

theorem intf_ra2ll_matrix_coincident_grid:
  assumes "mset (trans_yxs trans_tab) = mset (intf_yxs [0, 1, 2, 3] [0, 1, 2, 3])"
    and "layers trans_ra2ll = [tr]"
    and "mset tr = mset (map int [0..<16])"
  shows "\<exists>m. intf_ra2ll_matrix files f [0, 1, 2, 3] [0, 1, 2, 3] trans_tab trans_ra2ll
            = Inr (files(f \<mapsto> (trans_ra2ll\<lparr>layers := [m]\<rparr>, [(''node_offset'', 1)])))
         \<and> length m = 16
         \<and> (\<forall>c<16. 0 \<le> m ! c
               \<and> intf_yxs [0, 1, 2, 3] [0, 1, 2, 3] ! nat (m ! c)
                   = trans_yxs trans_tab ! nat (tr ! c))
         \<and> mset m = mset (map int [0..<16]) \<and> - 1 \<notin> set m"
proof -
  let ?ys = "[0, 1, 2, 3 :: real]"
  let ?C = "intf_yxs ?ys ?ys"
  have n: "length ?ys * length ?ys = 16" by simp
  have d: "distinct ?ys" by simp
  obtain limit where lim: "distance_limit ?ys ?ys = Inr limit" using limit_4x4 by blast
  let ?I = "intf2trans ?ys ?ys limit trans_tab"
  have "\<exists>m. intf_ra2ll_values ?ys ?ys trans_tab tr = Inr m
      \<and> mset m = mset (map int [0..<length ?ys * length ?ys])"
    using assms(1) assms(3) [folded n]
    by (intro coincident_values) simp_all
  then obtain m where v: "intf_ra2ll_values ?ys ?ys trans_tab tr = Inr m"
    and m: "mset m = mset (map int [0..<16])"
    unfolding n by blast
  from assms(1) have lt: "length (trans_yxs trans_tab) = 16"
    using mset_eq_length [OF assms(1)] by (simp add: length_intf_yxs)
  then have ltab: "length trans_tab = 16" by (simp add: trans_yxs_def)
  then have ne0: "trans_tab \<noteq> []" by auto
  from assms(3) have str: "set tr = set (map int [0..<16])" by (rule mset_eq_setD)
  from assms(3) have ltr: "length tr = 16"
    by (metis length_map length_upt mset_eq_length minus_nat.diff_0)
  have rng: "\<forall>i \<in> set tr. 0 \<le> i \<and> i < int (length trans_tab)"
    unfolding str ltab by auto
  from valid_values [OF ne0 lim rng] v have mdef: "m = map (\<lambda>i. ?I ! nat i) tr" by simp
  have pin: "0 \<le> m ! c \<and> ?C ! nat (m ! c) = trans_yxs trans_tab ! nat (tr ! c)"
    if c: "c < 16" for c
  proof -
    from c ltr have "tr ! c \<in> set tr" by simp
    with rng have t: "nat (tr ! c) < length trans_tab" by auto
    then have "trans_yxs trans_tab ! nat (tr ! c) \<in> set (trans_yxs trans_tab)"
      by (simp add: trans_yxs_def)
    then have "trans_yxs trans_tab ! nat (tr ! c) \<in> set ?C"
      using mset_eq_setD [OF assms(1)] by simp
    from coincident_intf2trans [OF d d lim t this] mdef c ltr show ?thesis by simp
  qed
  from m have sm: "set m = set (map int [0..<16])" by (rule mset_eq_setD)
  from m have lm: "length m = 16"
    by (metis length_map length_upt mset_eq_length minus_nat.diff_0)
  then have ne: "m \<noteq> []" by auto
  from sm have "\<forall>a \<in> set m. a < 16" by auto
  with ne have mx: "Max (set m) < 16" by simp
  from sm have no: "- 1 \<notin> set m" by auto
  from v assms(2) ne mx
  have "intf_ra2ll_matrix files f ?ys ?ys trans_tab trans_ra2ll
      = Inr (files(f \<mapsto> (trans_ra2ll\<lparr>layers := [m]\<rparr>, [(''node_offset'', 1)])))"
    by (simp add: intf_ra2ll_matrix_def intf_ra2ll_post_check_def np_max_Inr)
  with m no lm pin show ?thesis by blast
qed

theorem intf_ra2ll_matrix_coincident_grid_witness:
  "mset (trans_yxs (rev coincident_rows)) = mset (intf_yxs [0, 1, 2, 3] [0, 1, 2, 3])
   \<and> mset (map int (rev [0..<16])) = mset (map int [0..<16])
   \<and> (\<exists>m. intf_ra2ll_matrix Map.empty ''F1_intf_ra2ll.grd'' [0, 1, 2, 3] [0, 1, 2, 3]
          (rev coincident_rows)
          \<lparr>dims = [''lat'', ''lon''], coord0 = [0, 1, 2, 3], coord1 = [0, 1, 2, 3],
           layers = [map int (rev [0..<16])]\<rparr>
        = Inr [''F1_intf_ra2ll.grd'' \<mapsto>
            (\<lparr>dims = [''lat'', ''lon''], coord0 = [0, 1, 2, 3], coord1 = [0, 1, 2, 3],
              layers = [map int (rev [0..<16])]\<rparr>\<lparr>layers := [m]\<rparr>, [(''node_offset'', 1)])]
        \<and> length m = 16
        \<and> (\<forall>c<16. 0 \<le> m ! c
              \<and> intf_yxs [0, 1, 2, 3] [0, 1, 2, 3] ! nat (m ! c)
                  = trans_yxs (rev coincident_rows) ! nat (map int (rev [0..<16]) ! c))
        \<and> mset m = mset (map int [0..<16]) \<and> - 1 \<notin> set m)"
proof -
  let ?C = "intf_yxs [0, 1, 2, 3] [0, 1, 2, 3]"
  let ?tra = "\<lparr>dims = [''lat'', ''lon''], coord0 = [0, 1, 2, 3], coord1 = [0, 1, 2, 3],
           layers = [map int (rev [0..<16])]\<rparr>"
  have "trans_yxs coincident_rows = ?C"
    by (simp add: trans_yxs_def comp_def case_prod_beta)
  moreover have "trans_yxs (rev coincident_rows) = rev (trans_yxs coincident_rows)"
    by (simp only: trans_yxs_def rev_map)
  ultimately have "trans_yxs (rev coincident_rows) = rev ?C" by (simp only:)
  then have a: "mset (trans_yxs (rev coincident_rows)) = mset ?C" by (simp only: mset_rev)
  have b: "layers ?tra = [map int (rev [0..<16])]" by simp
  have c: "mset (map int (rev [0..<16])) = mset (map int [0..<16])"
    by (simp only: rev_map [symmetric] mset_rev)
  note r = intf_ra2ll_matrix_coincident_grid [OF a b c, of Map.empty "''F1_intf_ra2ll.grd''"]
  from a c r show ?thesis by (intro conjI)
qed

text \<open>
  The claim as worded asks only that the full-area matrix marks all 16 cells valid. That
  is not enough: when all 16 cells refer to the first point, the build writes 16 times
  the index 0, and the integers 1 to 15 do not occur.
\<close>

theorem intf_ra2ll_matrix_all_valid_counterexample:
  "intf_ra2ll_matrix Map.empty ''F1_intf_ra2ll.grd'' [0, 1, 2, 3] [0, 1, 2, 3] coincident_rows
      \<lparr>dims = [''lat'', ''lon''], coord0 = [0, 1, 2, 3], coord1 = [0, 1, 2, 3],
       layers = [[0, 0, 0, 0, 0, 0, 0, 0, 0, 0, 0, 0, 0, 0, 0, 0]]\<rparr>
     = Inr [''F1_intf_ra2ll.grd'' \<mapsto>
         (\<lparr>dims = [''lat'', ''lon''], coord0 = [0, 1, 2, 3], coord1 = [0, 1, 2, 3],
           layers = [[0, 0, 0, 0, 0, 0, 0, 0, 0, 0, 0, 0, 0, 0, 0, 0]]\<rparr>,
          [(''node_offset'', 1)])]
   \<and> trans_yxs coincident_rows = intf_yxs [0, 1, 2, 3] [0, 1, 2, 3]
   \<and> list_all (\<lambda>t. 0 \<le> t) [0, 0, 0, 0, 0, 0, 0, 0, 0, 0, 0, 0, 0, 0, 0, 0 :: int]
   \<and> 1 \<notin> set [0, 0, 0, 0, 0, 0, 0, 0, 0, 0, 0, 0, 0, 0, 0, 0 :: int]"
proof -
  let ?ys = "[0, 1, 2, 3 :: real]"
  let ?C = "intf_yxs ?ys ?ys"
  let ?z = "[0, 0, 0, 0, 0, 0, 0, 0, 0, 0, 0, 0, 0, 0, 0, 0 :: int]"
  have tc: "trans_yxs coincident_rows = ?C"
    by (simp add: trans_yxs_def comp_def case_prod_beta)
  have d: "distinct ?ys" by simp
  obtain limit where lim: "distance_limit ?ys ?ys = Inr limit" using limit_4x4 by blast
  let ?I = "intf2trans ?ys ?ys limit coincident_rows"
  have lC: "length ?C = 16" by (simp add: length_intf_yxs)
  have lr: "length coincident_rows = 16" by (simp add: length_intf_yxs)
  then have ne: "coincident_rows \<noteq> []" by auto
  have t0: "0 < length coincident_rows" using lr by simp
  have "trans_yxs coincident_rows ! 0 \<in> set ?C" unfolding tc using lC by (intro nth_mem) simp
  from coincident_intf2trans [OF d d lim t0 this]
  have i0: "0 \<le> ?I ! 0" and i1: "nat (?I ! 0) < length ?C"
    and "?C ! nat (?I ! 0) = ?C ! 0" by (simp_all add: tc)
  with distinct_intf_yxs [OF d d] lC have "nat (?I ! 0) = 0"
    by (simp add: nth_eq_iff_index_eq)
  with i0 have I0: "?I ! 0 = 0" by simp
  have rng: "\<forall>i \<in> set ?z. 0 \<le> i \<and> i < int (length coincident_rows)"
    unfolding lr by simp
  from valid_values [OF ne lim rng] I0
  have v: "intf_ra2ll_values ?ys ?ys coincident_rows ?z = Inr ?z" by simp
  then have "intf_ra2ll_matrix Map.empty ''F1_intf_ra2ll.grd'' ?ys ?ys coincident_rows
      \<lparr>dims = [''lat'', ''lon''], coord0 = [0, 1, 2, 3], coord1 = [0, 1, 2, 3], layers = [?z]\<rparr>
     = Inr [''F1_intf_ra2ll.grd'' \<mapsto>
         (\<lparr>dims = [''lat'', ''lon''], coord0 = [0, 1, 2, 3], coord1 = [0, 1, 2, 3],
           layers = [?z]\<rparr>, [(''node_offset'', 1)])]"
    by (simp add: intf_ra2ll_matrix_def intf_ra2ll_post_check_def np_max_def)
  with tc show ?thesis by simp
qed

subsection \<open>The inverse matrix builder\<close>

text \<open>
  Claim C8 (block pruning and query without tolerance): every cell of a chunk is meant
  to get the label of the nearest point of the gathered blocks. On the code the labels
  are read off the label array's own block grid. Here the chunk at azimuth 8 keeps the
  dataset's block 1, whose only point is the one at azimuth 8, the cell 2 of the table;
  block 1 of the label array holds the label 1, that of the point at azimuth 4, which
  was not gathered and is not the nearest. Both cells of the chunk get the label 1.
\<close>

theorem calc_intf_ll2ra_matrix_misaligned_labels:
  "candidate_blocks tall_extents 8 8 0 6
     = [\<lparr>e_iy = 1, e_ix = 0, e_ymin = 8, e_ymax = 8, e_xmin = 0, e_xmax = 0\<rparr>]
   \<and> gather_blocks tall_dat
        [\<lparr>e_iy = 1, e_ix = 0, e_ymin = 8, e_ymax = 8, e_xmin = 0, e_xmax = 0\<rparr>]
     = Inr ([(8, 0)], [1])
   \<and> calc_intf_ll2ra_matrix tall_dat tall_extents [8, 8] [0, 6] = Inr [1, 1]
   \<and> concat (trans_idx tall_dat) = [0, 1, 2]
   \<and> (concat (azi tall_dat) ! 1, concat (rng tall_dat) ! 1) = (4, 0)
   \<and> (concat (azi tall_dat) ! 2, concat (rng tall_dat) ! 2) = (8, 0)"
proof -
  have "calc_intf_ll2ra_matrix tall_dat tall_extents [8, 8] [0, 6] = Inr [1, 1]"
    using tall_gather tall_candidates
    by (simp add: calc_intf_ll2ra_matrix_def np_min_def np_max_def
        query_def dist_yx_def np_gather_def np_take_def np_index_def)
  moreover have "concat (trans_idx tall_dat) = [0, 1, 2]"
    by (simp add: trans_idx_def ll_shape_def)
  ultimately show ?thesis using tall_gather tall_candidates by simp
qed

subsection \<open>The round trip through both matrices\<close>

text \<open>
  Claim C1 (round-trip bound), as amended. Let the forward values and the inverse matrix
  be built over the same interferogram grid, let the cell \<open>c\<close> of the geographic grid
  have the forward entry \<open>r\<close>, not -1, and let \<open>j\<close> be the place of the radar cell \<open>r\<close>
  in the chunk \<open>b\<close> of the radar grid. If the label array of the translation table is
  cut into the blocks of the dataset, and the translation-table point that \<open>c\<close> refers
  to is among the points gathered from the candidate blocks of that chunk, then the
  inverse entry of \<open>r\<close> is the label of a cell of the translation table whose radar
  position is at most as far from the center of \<open>r\<close> as the point of \<open>c\<close>, which is
  itself strictly within the tolerance of the forward build. The bound is one of radar
  positions: the geographic location of the labelled cell is not bounded.
\<close>

theorem round_trip_radar_bound:
  assumes F: "intf_ra2ll_values ys xs trans_tab trans_ra2ll = Inr F"
    and lim: "distance_limit ys xs = Inr limit"
    and c: "c < length F" and Fc: "F ! c = int r"
    and wf: "wf_trans_dat td" and al: "aligned_labels td"
    and IM: "intf_ll2ra_matrix td ext ys xs y_chunks x_chunks = Inr Ms"
    and b: "b < length (radar_chunks ys xs y_chunks x_chunks)"
    and ch: "radar_chunks ys xs y_chunks x_chunks ! b = (azi_c, rng_c)"
    and j: "j < length azi_c" and cell: "(azi_c ! j, rng_c ! j) = intf_yxs ys xs ! r"
    and g: "gather_blocks td (candidate_blocks ext (Min (set azi_c)) (Max (set azi_c))
        (Min (set rng_c)) (Max (set rng_c))) = Inr (src, idxs)"
    and pt: "trans_yxs trans_tab ! nat (trans_ra2ll ! c) \<in> set src"
  shows "\<exists>row col. row < fst (ll_shape td) \<and> col < snd (ll_shape td)
     \<and> Ms ! b ! j = of_nat (row * snd (ll_shape td) + col)
     \<and> dist_yx (azi td ! row ! col, rng td ! row ! col) (intf_yxs ys xs ! r)
         \<le> dist_yx (trans_yxs trans_tab ! nat (trans_ra2ll ! c)) (intf_yxs ys xs ! r)
     \<and> dist_yx (trans_yxs trans_tab ! nat (trans_ra2ll ! c)) (intf_yxs ys xs ! r) < limit"
proof -
  let ?C = "intf_yxs ys xs"
  let ?I = "intf2trans ys xs limit trans_tab"
  let ?t = "nat (trans_ra2ll ! c)"
  let ?pt = "trans_yxs trans_tab ! ?t"
  define M where "M = Ms ! b"
  from intf_ll2ra_matrix_chunk [OF IM b ch]
  have M: "calc_intf_ll2ra_matrix td ext azi_c rng_c = Inr M" by (simp add: M_def)
  from F lim obtain picked where
    gp: "np_gather ?I trans_ra2ll = Inr picked" and
    Fm: "F = map (\<lambda>(t, v). if t \<ge> 0 then v else - 1) (zip trans_ra2ll picked)"
    by (auto elim!: intf_ra2ll_values_Inr)
  from np_gather_Inr(1) [OF gp] have lp: "length picked = length trans_ra2ll" .
  with c Fm have c': "c < length trans_ra2ll" by simp
  with Fm lp Fc have nonneg: "0 \<le> trans_ra2ll ! c" and pc: "picked ! c = int r"
    by (auto split: if_splits)
  from np_gather_Inr(2) [OF gp c'] have "np_take ?I (trans_ra2ll ! c) = Inr (picked ! c)" .
  from np_take_nonneg [OF this nonneg] pc have t: "?t < length ?I" and It: "?I ! ?t = int r"
    by simp_all
  from t have t': "?t < length (trans_yxs trans_tab)" by (simp add: intf2trans_def)
  obtain d ind where q: "query ?C ?pt (Some limit) = (d, ind)"
    by (cases "query ?C ?pt (Some limit)")
  with It t' have "d \<noteq> None" "ind = r"
    by (auto simp: intf2trans_def split: if_splits)
  with q obtain d' where "query ?C ?pt (Some limit) = (Some d', r)" by auto
  from query_bounded_Some [OF this] have "dist_yx (?C ! r) ?pt < limit" by simp
  then have near: "dist_yx ?pt (?C ! r) < limit" by (simp add: dist_yx_commute)
  from M obtain src' idxs' where
    "gather_blocks td (candidate_blocks ext (Min (set azi_c)) (Max (set azi_c))
        (Min (set rng_c)) (Max (set rng_c))) = Inr (src', idxs')"
    and len: "length azi_c = length rng_c"
    and "np_gather idxs' (map (\<lambda>q. int (snd (query src' q None))) (zip azi_c rng_c)) = Inr M"
    by (rule calc_intf_ll2ra_matrix_Inr)
  with g have gM: "np_gather idxs (map (\<lambda>q. int (snd (query src q None))) (zip azi_c rng_c)) = Inr M"
    by simp
  from pt have "src \<noteq> []" by auto
  then obtain d2 i2 where q2: "query src (?C ! r) None = (Some d2, i2)"
    and i2: "i2 < length src" and d2: "d2 = dist_yx (src ! i2) (?C ! r)"
    and mn: "\<forall>k<length src. d2 \<le> dist_yx (src ! k) (?C ! r)"
    by (rule query_unbounded)
  from pt obtain k0 where "k0 < length src" "src ! k0 = ?pt" by (auto simp: in_set_conv_nth)
  with mn have le: "d2 \<le> dist_yx ?pt (?C ! r)" by auto
  from j len have jz: "j < length (map (\<lambda>q. int (snd (query src q None))) (zip azi_c rng_c))"
    by simp
  from np_gather_Inr(2) [OF gM jz] j len cell q2
  have "np_take idxs (int i2) = Inr (M ! j)" by simp
  from np_take_nonneg [OF this] have Mj: "M ! j = idxs ! i2" by simp
  from gathered_label [OF wf al g i2] obtain row col where
    "row < fst (ll_shape td)" "col < snd (ll_shape td)"
    "src ! i2 = (azi td ! row ! col, rng td ! row ! col)"
    "idxs ! i2 = of_nat (row * snd (ll_shape td) + col)" by blast
  with Mj d2 le near show ?thesis
    unfolding M_def by (intro exI [of _ row] exI [of _ col]) simp
qed

theorem round_trip_radar_bound_witness:
  "intf_ra2ll_values [0, 8] [0, 6] demo_rows [0, 1] = Inr [0, 0]
   \<and> distance_limit [0, 8] [0, 6] = Inr (5 + 1 / 100)
   \<and> wf_trans_dat demo_dat \<and> aligned_labels demo_dat
   \<and> intf_ll2ra_matrix demo_dat demo_extents [0, 8] [0, 6] [2] [2] = Inr [[1, 1, 0, 0]]
   \<and> radar_chunks [0, 8] [0, 6] [2] [2] ! 0 = ([0, 0, 8, 8], [0, 6, 0, 6])
   \<and> ([0, 0, 8, 8] ! 0, [0, 6, 0, 6] ! 0) = intf_yxs [0, 8] [0, 6] ! 0
   \<and> gather_blocks demo_dat (candidate_blocks demo_extents 0 8 0 6)
        = Inr ([(1, 0), (0, 0)], [0, 1])
   \<and> trans_yxs demo_rows ! nat ([0, 1] ! 0) \<in> set [(1, 0), (0, 0)]
   \<and> (\<exists>row col. row < fst (ll_shape demo_dat) \<and> col < snd (ll_shape demo_dat)
        \<and> [[1, 1, 0, 0]] ! 0 ! 0 = (of_nat (row * snd (ll_shape demo_dat) + col) :: 32 word)
        \<and> dist_yx (azi demo_dat ! row ! col, rng demo_dat ! row ! col)
             (intf_yxs [0, 8] [0, 6] ! 0)
            \<le> dist_yx (trans_yxs demo_rows ! nat ([0, 1] ! 0)) (intf_yxs [0, 8] [0, 6] ! 0)
        \<and> dist_yx (trans_yxs demo_rows ! nat ([0, 1] ! 0)) (intf_yxs [0, 8] [0, 6] ! 0)
            < 5 + 1 / 100)"
proof -
  have mm: "Min (set [0, 0, 8, 8 :: real]) = 0" "Max (set [0, 0, 8, 8 :: real]) = 8"
    "Min (set [0, 6, 0, 6 :: real]) = 0" "Max (set [0, 6, 0, 6 :: real]) = 6"
    by simp_all
  have cb: "candidate_blocks demo_extents 0 8 0 6 = demo_extents"
    by (simp add: candidate_blocks_def)
  have g: "gather_blocks demo_dat (candidate_blocks demo_extents 0 8 0 6)
      = Inr ([(1, 0), (0, 0)], [0, 1])"
    unfolding cb by (rule demo_gather)
  have g': "gather_blocks demo_dat (candidate_blocks demo_extents (Min (set [0, 0, 8, 8]))
      (Max (set [0, 0, 8, 8])) (Min (set [0, 6, 0, 6])) (Max (set [0, 6, 0, 6])))
      = Inr ([(1, 0), (0, 0)], [0, 1])"
    unfolding mm by (rule g)
  have c: "(0::nat) < length [0, 0 :: int]" by simp
  have Fc: "[0, 0 :: int] ! 0 = int 0" by simp
  have b: "0 < length (radar_chunks [0, 8] [0, 6] [2] [2])"
    unfolding demo_chunks by simp
  have ch: "radar_chunks [0, 8] [0, 6] [2] [2] ! 0 = ([0, 0, 8, 8], [0, 6, 0, 6])"
    unfolding demo_chunks by simp
  have j: "(0::nat) < length [0, 0, 8, 8 :: real]" by simp
  have cell: "([0, 0, 8, 8] ! 0, [0, 6, 0, 6] ! 0) = intf_yxs [0, 8] [0, 6] ! 0"
    by (simp add: intf_yxs_def)
  have pt: "trans_yxs demo_rows ! nat ([0, 1] ! 0) \<in> set [(1, 0), (0, 0)]"
    by (simp add: trans_yxs_def)
  note r = round_trip_radar_bound [OF demo_forward_values limit_8_6 c Fc demo_wf demo_aligned
      demo_matrix b ch j cell g' pt]
  from demo_forward_values limit_8_6 demo_wf demo_aligned demo_matrix ch cell g pt r
  show ?thesis by (intro conjI)
qed

text \<open>
  The bound as the specification words it, on geographic locations, fails on two
  inputs. On the small translation table the two points, at the longitudes 0 and 100,
  lie next to the radar cell 0: the geographic cell at the longitude 0 maps to the radar
  cell 0, whose inverse entry is the point at the longitude 100. On the table with a
  block out of reach the geographic cell 0 refers to the point at the azimuth -3, within
  the tolerance of the radar cell 0, but the block of that point is not a candidate and
  the point is not gathered: the inverse entry of the radar cell 0 is the point at the
  azimuth 8 and the range 6, farther from the cell than the tolerance also in radar
  positions.
\<close>

theorem round_trip_counterexample:
  "intf_ra2ll_values [0, 8] [0, 6] demo_rows (concat (layers demo_trans_ra2ll)) = Inr [0, 0]
   \<and> distance_limit [0, 8] [0, 6] = Inr (5 + 1 / 100)
   \<and> intf_ll2ra_matrix demo_dat demo_extents [0, 8] [0, 6] [2] [2] = Inr [[1, 1, 0, 0]]
   \<and> \<not> round_trip_bound (5 + 1 / 100) [0, 0] [1, 1, 0, 0] demo_trans_ra2ll demo_dat
   \<and> intf_ra2ll_values [0, 8] [0, 6] split_rows (concat (layers split_trans_ra2ll))
       = Inr [0, 3]
   \<and> wf_trans_dat split_dat \<and> aligned_labels split_dat
   \<and> intf_ll2ra_matrix split_dat split_extents [0, 8] [0, 6] [2] [2] = Inr [[1, 1, 1, 1]]
   \<and> \<not> round_trip_bound (5 + 1 / 100) [0, 3] [1, 1, 1, 1] split_trans_ra2ll split_dat
   \<and> gather_blocks split_dat (candidate_blocks split_extents 0 8 0 6) = Inr ([(8, 6)], [1])
   \<and> trans_yxs split_rows ! nat (concat (layers split_trans_ra2ll) ! 0) \<notin> set [(8, 6)]
   \<and> dist_yx (trans_yxs split_rows ! nat (concat (layers split_trans_ra2ll) ! 0))
         (intf_yxs [0, 8] [0, 6] ! 0) < 5 + 1 / 100
   \<and> \<not> dist_yx (concat (azi split_dat) ! unat ([1, 1, 1, 1 :: 32 word] ! 0),
                 concat (rng split_dat) ! unat ([1, 1, 1, 1 :: 32 word] ! 0))
               (intf_yxs [0, 8] [0, 6] ! 0) < 5 + 1 / 100"
proof -
  have "\<not> dist_yx (label_latlon demo_dat ([1, 1, 0, 0] ! nat ([0, 0] ! 0)))
          (cell_latlon demo_trans_ra2ll 0) \<le> 5 + 1 / 100"
    by (simp add: label_latlon_def cell_latlon_def ll_shape_def dist_yx_def)
  then have 1: "\<not> round_trip_bound (5 + 1 / 100) [0, 0] [1, 1, 0, 0] demo_trans_ra2ll demo_dat"
    unfolding round_trip_bound_def by (auto intro!: exI [of _ 0])
  have "\<not> dist_yx (label_latlon split_dat ([1, 1, 1, 1] ! nat ([0, 3] ! 0)))
          (cell_latlon split_trans_ra2ll 0) \<le> 5 + 1 / 100"
    by (simp add: label_latlon_def cell_latlon_def ll_shape_def dist_yx_def)
  then have 2: "\<not> round_trip_bound (5 + 1 / 100) [0, 3] [1, 1, 1, 1] split_trans_ra2ll split_dat"
    unfolding round_trip_bound_def by (auto intro!: exI [of _ 0])
  have 3: "\<not> dist_yx (concat (azi split_dat) ! unat ([1, 1, 1, 1 :: 32 word] ! 0),
                 concat (rng split_dat) ! unat ([1, 1, 1, 1 :: 32 word] ! 0))
               (intf_yxs [0, 8] [0, 6] ! 0) < 5 + 1 / 100"
    by (simp add: dist_yx_def intf_yxs_def)
  have 4: "aligned_labels split_dat" by (simp add: aligned_labels_def)
  have 5: "gather_blocks split_dat (candidate_blocks split_extents 0 8 0 6)
      = Inr ([(8, 6)], [1])"
    unfolding split_candidates by (rule split_gather)
  have 6: "trans_yxs split_rows ! nat (concat (layers split_trans_ra2ll) ! 0) \<notin> set [(8, 6)]"
    by (simp add: trans_yxs_def)
  have 7: "dist_yx (trans_yxs split_rows ! nat (concat (layers split_trans_ra2ll) ! 0))
         (intf_yxs [0, 8] [0, 6] ! 0) < 5 + 1 / 100"
    by (simp add: trans_yxs_def intf_yxs_def dist_yx_def)
  have 8: "intf_ra2ll_values [0, 8] [0, 6] demo_rows (concat (layers demo_trans_ra2ll))
      = Inr [0, 0]"
    using demo_forward_values by simp
  have 9: "intf_ra2ll_values [0, 8] [0, 6] split_rows (concat (layers split_trans_ra2ll))
       = Inr [0, 3]"
    using split_forward_values by simp
  from 8 limit_8_6 demo_matrix 1 9 split_wf 4 split_matrix 2 5 6 7 3
  show ?thesis by (intro conjI)
qed

end
